theory Spec2Isabelle
  imports Main "HOL-Library.Word"
begin

unbundle bit_operations_syntax

section \<open>RFIDuino: the SL018 and SM130 reader drivers\<close>

text \<open>
  A shallow embedding of \<^verbatim>\<open>SL018/SL018.cpp\<close>, \<^verbatim>\<open>SL018/SL018.h\<close>,
  \<^verbatim>\<open>SM130/SM130.cpp\<close> and \<^verbatim>\<open>SM130/SM130.h\<close>. The specification calls the SL018
  driver Variant A and the SM130 driver Variant B.

  Arduino's \<^verbatim>\<open>byte\<close> is an 8-bit unsigned integer and \<^verbatim>\<open>unsigned long\<close> is 32 bits
  wide; both wrap around. The \<^verbatim>\<open>debug\<close> flag and the bus \<^verbatim>\<open>address\<close> only select
  what is echoed on the serial console and which bus address is used; they are left out.
\<close>

type_synonym byte = "8 word"
type_synonym ulong = "32 word"

subsection \<open>Faults\<close>

text \<open>
  C gives no meaning to an access outside an array. The model makes every such access a
  value: \<open>PacketOverrun i\<close> is an access to \<^verbatim>\<open>data[i]\<close> outside the packet buffer,
  and \<open>TagOverrun n\<close> a copy of \<open>n\<close> id bytes into the 7-byte \<^verbatim>\<open>tagNumber\<close>.
\<close>

datatype fault = PacketOverrun nat | TagOverrun nat

subsection \<open>Helper functions shared by both drivers\<close>

text \<open>
  \<^verbatim>\<open>char toHex(byte b) { b = b & 0x0f; return b < 10 ? b + '0' : b + 'A' - 10; }\<close>
\<close>

definition toHex :: "byte \<Rightarrow> char" where
  "toHex b0 =
     (let b = b0 AND 0x0f in
      if b < 10 then char_of (unat b + of_char CHR ''0'')
      else char_of (unat b + of_char CHR ''A'' - 10))"

text \<open>
  \<^verbatim>\<open>arrayToHex(s, array, len)\<close> writes two characters for each of the first \<open>len\<close>
  bytes and then a terminating zero. The result is the sequence of characters written
  to \<open>s\<close>, the terminator included.
\<close>

definition arrayToHex :: "byte list \<Rightarrow> byte \<Rightarrow> char list" where
  "arrayToHex array len =
     concat (map (\<lambda>i. [toHex (drop_bit 4 (array ! i)), toHex (array ! i)]) [0..<unat len])
     @ [CHR 0x00]"

text \<open>The hexadecimal characters of the first \<open>n\<close> bytes, without the terminator.\<close>

definition hex_digits :: "byte list \<Rightarrow> nat \<Rightarrow> char list" where
  "hex_digits array n = concat (map (\<lambda>i. [toHex (drop_bit 4 (array ! i)), toHex (array ! i)]) [0..<n])"

text \<open>A C string held in a character buffer: the characters before the first zero.\<close>

definition c_str :: "char list \<Rightarrow> char list" where
  "c_str buf = takeWhile (\<lambda>c. c \<noteq> CHR 0x00) buf"

text \<open>Storing \<open>src\<close> at the start of a buffer, as \<^verbatim>\<open>memcpy(dst, src, n)\<close> does.\<close>

definition store :: "'a list \<Rightarrow> 'a list \<Rightarrow> 'a list" where
  "store src dst = src @ drop (length src) dst"

text \<open>Storing \<open>src\<close> from cell \<open>k\<close> on, as \<^verbatim>\<open>memcpy(dst + k, src, n)\<close> does.\<close>

definition store_at :: "nat \<Rightarrow> 'a list \<Rightarrow> 'a list \<Rightarrow> 'a list" where
  "store_at k src dst = take k dst @ src @ drop (k + length src) dst"

text \<open>
  The source of a \<^verbatim>\<open>memcpy\<close> is a pointer argument, \<^verbatim>\<open>byte key[6]\<close> or
  \<^verbatim>\<open>const char* message\<close>. \<^verbatim>\<open>memcpy(dst, src, n)\<close> takes the \<open>n\<close> bytes that are in memory
  from that address on, whatever they are, also behind the terminator of a shorter
  string. Such an argument is the memory from its address on, a function from offsets to
  bytes, and \<open>fetch src n\<close> are the bytes taken.
\<close>

type_synonym memory = "nat \<Rightarrow> byte"

definition fetch :: "memory \<Rightarrow> nat \<Rightarrow> byte list" where
  "fetch src n = map src [0..<n]"

text \<open>
  \<^verbatim>\<open>strncpy(dst, src, n)\<close> copies the characters of the string \<open>src\<close> up to its
  terminator, at most \<open>n\<close> of them, and fills up to \<open>n\<close> with zeros. The list \<open>src\<close>
  holds the characters of the argument; its end stands for the terminator.
\<close>

definition strncpy :: "byte list \<Rightarrow> nat \<Rightarrow> byte list" where
  "strncpy src n =
     (let cs = take n (takeWhile (\<lambda>c. c \<noteq> 0) src) in cs @ replicate (n - length cs) 0)"

text \<open>Sequencing of steps that may fault.\<close>

definition bindF :: "fault + 'a \<Rightarrow> ('a \<Rightarrow> fault + 'b) \<Rightarrow> fault + 'b" where
  "bindF m f = (case m of Inl e \<Rightarrow> Inl e | Inr x \<Rightarrow> f x)"

subsection \<open>The environment: clock, bus and pins\<close>

datatype pin_mode = INPUT | OUTPUT

datatype pin_level = LOW | HIGH

datatype gpio_op = PinMode byte pin_mode | DigitalWrite byte pin_level

text \<open>
  \<open>millis\<close> is the reading of the millisecond clock, \<open>wire_tx\<close> the frames written to
  the bus so far (oldest first), \<open>gpio\<close> the pin operations so far and \<open>dready\<close> the
  level that \<^verbatim>\<open>digitalRead(pinDREADY)\<close> returns.
\<close>

record world =
  millis :: ulong
  wire_tx :: "byte list list"
  gpio :: "gpio_op list"
  dready :: bool


text \<open>
  \<^verbatim>\<open>while(t > millis());\<close> The clock advances by one between two readings that differ,
  so the loop leaves at the first reading that is not below \<open>t\<close>.
\<close>

function busy_wait :: "ulong \<Rightarrow> ulong \<Rightarrow> ulong" where
  "busy_wait t now = (if t > now then busy_wait t (now + 1) else now)"
  by pat_completeness auto
termination
proof (relation "measure (\<lambda>(t, now). unat t - unat now)")
  show "wf (measure (\<lambda>(t, now). unat t - unat now))" by simp
next
  fix t now :: ulong
  assume lt: "now < t"
  then have lt': "unat now < unat t"
    by (simp add: word_less_nat_alt)
  have "unat t < 2 ^ LENGTH(32)"
    by (rule unsigned_less)
  with lt' have "unat now + unat (1 :: ulong) < 2 ^ LENGTH(32)"
    by simp
  then have "unat (now + 1) = unat now + unat (1 :: ulong)"
    by (simp only: unat_add_lem)
  with lt' show "((t, now + 1), (t, now)) \<in> measure (\<lambda>(t, now). unat t - unat now)"
    by simp
qed

text \<open>
  The gate in front of every bus transaction:
  \<^verbatim>\<open>while(t > millis()); t = millis() + 20;\<close>
  It returns the clock reading at which the caller goes on and the new deadline.
\<close>

definition gate :: "ulong \<Rightarrow> ulong \<Rightarrow> ulong \<times> ulong" where
  "gate t now = (let now' = busy_wait t now in (now', now' + 20))"

text \<open>
  Modelled from the spec: the transport collaborator (Arduino's Wire library) is not part
  of the repository. \<open>requestBytes(address, maxCount)\<close> fetches at most \<open>maxCount\<close> of the
  bytes \<open>rx\<close> the device has ready, \<open>bytesAvailable()\<close> counts what is left of them and
  \<open>readByte()\<close> takes the next one. Reading with nothing left gives \<open>-1\<close>, which is
  \<open>0xFF\<close> once stored in a byte.
\<close>

definition Wire_requestFrom :: "byte \<Rightarrow> byte list \<Rightarrow> byte list" where
  "Wire_requestFrom quantity rx = take (unat quantity) rx"

definition Wire_available :: "byte list \<Rightarrow> byte" where
  "Wire_available buf = of_nat (length buf)"

definition Wire_read :: "byte list \<Rightarrow> byte \<times> byte list" where
  "Wire_read buf = (case buf of [] \<Rightarrow> (0xFF, []) | b # bs \<Rightarrow> (b, bs))"

text \<open>The bytes that \<open>n\<close> calls of \<open>readByte()\<close> in a row return.\<close>

fun Wire_reads :: "nat \<Rightarrow> byte list \<Rightarrow> byte list" where
  "Wire_reads 0 buf = []"
| "Wire_reads (Suc n) buf = fst (Wire_read buf) # Wire_reads n (snd (Wire_read buf))"

subsection \<open>Reader state\<close>

text \<open>
  Class \<^verbatim>\<open>SL018\<close> declares the fields of record \<open>sl018\<close>; class \<^verbatim>\<open>SM130\<close> declares fields
  of the same names and types and two more, so its record extends the first one.
  \<^verbatim>\<open>data\<close> has \<^verbatim>\<open>SIZE_PACKET\<close> cells, \<^verbatim>\<open>tagNumber\<close> 7, \<^verbatim>\<open>tagString\<close> 15 and
  \<^verbatim>\<open>versionString\<close> 8. \<^verbatim>\<open>errorCode\<close> is a \<^verbatim>\<open>char\<close>, kept as its byte.
\<close>

record sl018 =
  pinRESET :: byte
  pinDREADY :: byte
  data :: "byte list"
  tagNumber :: "byte list"
  tagLength :: byte
  tagString :: "char list"
  tagType :: byte
  errorCode :: byte
  cmd :: byte
  t :: ulong

record sm130 = sl018 +
  versionString :: "char list"
  antennaPower :: byte

definition getPacketLength :: "'a sl018_scheme \<Rightarrow> byte" where
  "getPacketLength s = data s ! 0"

definition getTagString :: "'a sl018_scheme \<Rightarrow> char list" where
  "getTagString s = c_str (tagString s)"

text \<open>
  The response initialisation of both \<^verbatim>\<open>available()\<close> functions:
  \<^verbatim>\<open>tagType = tagLength = *tagString = 0;\<close>
\<close>

definition clear_tag :: "'a sl018_scheme \<Rightarrow> 'a sl018_scheme" where
  "clear_tag s = s\<lparr>tagString := (tagString s)[0 := CHR 0x00], tagLength := 0, tagType := 0\<rparr>"

text \<open>
  The tag number of a response, in both \<^verbatim>\<open>available()\<close> functions:
  \<^verbatim>\<open>memcpy(tagNumber, data + 3, tagLength); arrayToHex(tagString, tagNumber, tagLength);\<close>
  \<^verbatim>\<open>tagNumber\<close> holds 7 bytes and \<^verbatim>\<open>tagString\<close> 15 characters: a longer copy leaves
  both arrays.
\<close>

definition copy_tag :: "'a sl018_scheme \<Rightarrow> fault + 'a sl018_scheme" where
  "copy_tag s =
     (let n = unat (tagLength s) in
      if n \<le> 7 then
        (let num = store (take n (drop 3 (data s))) (tagNumber s)
         in Inr (s\<lparr>tagNumber := num,
                   tagString := store (arrayToHex num (tagLength s)) (tagString s)\<rparr>))
      else Inl (TagOverrun n))"

subsection \<open>SL018 (Variant A)\<close>

abbreviation (input) SL018_SIZE_PACKET :: nat where "SL018_SIZE_PACKET \<equiv> 19"

abbreviation (input) SL018_CMD_IDLE :: byte where "SL018_CMD_IDLE \<equiv> 0x00"
abbreviation (input) SL018_CMD_SELECT :: byte where "SL018_CMD_SELECT \<equiv> 0x01"
abbreviation (input) SL018_CMD_LOGIN :: byte where "SL018_CMD_LOGIN \<equiv> 0x02"
abbreviation (input) SL018_CMD_READ16 :: byte where "SL018_CMD_READ16 \<equiv> 0x03"
abbreviation (input) SL018_CMD_WRITE16 :: byte where "SL018_CMD_WRITE16 \<equiv> 0x04"
abbreviation (input) SL018_CMD_READ_VALUE :: byte where "SL018_CMD_READ_VALUE \<equiv> 0x05"
abbreviation (input) SL018_CMD_WRITE_VALUE :: byte where "SL018_CMD_WRITE_VALUE \<equiv> 0x06"
abbreviation (input) SL018_CMD_WRITE_KEY :: byte where "SL018_CMD_WRITE_KEY \<equiv> 0x07"
abbreviation (input) SL018_CMD_INC_VALUE :: byte where "SL018_CMD_INC_VALUE \<equiv> 0x08"
abbreviation (input) SL018_CMD_DEC_VALUE :: byte where "SL018_CMD_DEC_VALUE \<equiv> 0x09"
abbreviation (input) SL018_CMD_COPY_VALUE :: byte where "SL018_CMD_COPY_VALUE \<equiv> 0x0A"
abbreviation (input) SL018_CMD_READ4 :: byte where "SL018_CMD_READ4 \<equiv> 0x10"
abbreviation (input) SL018_CMD_WRITE4 :: byte where "SL018_CMD_WRITE4 \<equiv> 0x11"
abbreviation (input) SL018_CMD_SEEK :: byte where "SL018_CMD_SEEK \<equiv> 0x20"
abbreviation (input) SL018_CMD_SET_LED :: byte where "SL018_CMD_SET_LED \<equiv> 0x40"
abbreviation (input) SL018_CMD_SLEEP :: byte where "SL018_CMD_SLEEP \<equiv> 0x50"
abbreviation (input) SL018_CMD_RESET :: byte where "SL018_CMD_RESET \<equiv> 0xFF"

text \<open>
  The constructor, on an instance in zero-initialised static storage:
  \<^verbatim>\<open>pinRESET = -1; pinDREADY = -1; cmd = CMD_IDLE; t = millis() + 10;\<close>
\<close>

definition sl018_init :: "world \<Rightarrow> sl018" where
  "sl018_init w =
     \<lparr>pinRESET = 0xFF, pinDREADY = 0xFF, data = replicate SL018_SIZE_PACKET 0,
      tagNumber = replicate 7 0, tagLength = 0, tagString = replicate 15 (CHR 0x00),
      tagType = 0, errorCode = 0, cmd = SL018_CMD_IDLE, t = millis w + 10\<rparr>"

text \<open>The sizes of the arrays of an instance.\<close>

definition sl018_wf :: "'a sl018_scheme \<Rightarrow> bool" where
  "sl018_wf s \<longleftrightarrow>
     length (data s) = SL018_SIZE_PACKET \<and> length (tagNumber s) = 7 \<and> length (tagString s) = 15"

text \<open>\<^verbatim>\<open>byte getCommand() { return cmd; }\<close>\<close>

definition sl018_getCommand :: "sl018 \<Rightarrow> byte" where
  "sl018_getCommand s = cmd s"

text \<open>
  \<^verbatim>\<open>SL018::transmitData\<close>: the gate, \<^verbatim>\<open>cmd = data[1]\<close>, then the bytes
  \<^verbatim>\<open>data[0] .. data[data[0]]\<close> go to the bus as one frame.
\<close>

definition sl018_transmitData :: "sl018 \<Rightarrow> world \<Rightarrow> fault + (sl018 \<times> world)" where
  "sl018_transmitData s w =
     (let (now, t') = gate (t s) (millis w);
          n = unat (data s ! 0) + 1
      in if n \<le> SL018_SIZE_PACKET then
           Inr (s\<lparr>t := t', cmd := data s ! 1\<rparr>,
                w\<lparr>millis := now, wire_tx := wire_tx w @ [take n (data s)]\<rparr>)
         else Inl (PacketOverrun SL018_SIZE_PACKET))"

text \<open>
  The read loop of \<^verbatim>\<open>SL018::receiveData\<close>:
  \<^verbatim>\<open>for (byte i = 1; i <= data[0]; i++) data[i] = Wire.read();\<close>
  The index is a natural number here: the loop leaves the buffer at 19, before a byte
  counter could wrap.
\<close>

function sl018_rx_loop :: "nat \<Rightarrow> byte list \<Rightarrow> byte list \<Rightarrow> fault + byte list" where
  "sl018_rx_loop i buf d =
     (if i \<le> unat (d ! 0) then
        (if i < SL018_SIZE_PACKET then
           sl018_rx_loop (i + 1) (snd (Wire_read buf)) (d[i := fst (Wire_read buf)])
         else Inl (PacketOverrun i))
      else Inr d)"
  by pat_completeness auto
termination
  by (relation "measure (\<lambda>(i, buf, d). SL018_SIZE_PACKET - i)") auto

text \<open>
  \<^verbatim>\<open>SL018::receiveData(length)\<close> returns the length byte of the response, or 0 when
  the bus delivered nothing. \<open>rx\<close> is what the device has ready.
\<close>

definition sl018_receiveData ::
  "sl018 \<Rightarrow> world \<Rightarrow> byte list \<Rightarrow> byte \<Rightarrow> fault + (byte \<times> sl018 \<times> world)" where
  "sl018_receiveData s w rx len =
     (let (now, t') = gate (t s) (millis w);
          s1 = s\<lparr>t := t'\<rparr>;
          w1 = w\<lparr>millis := now\<rparr>;
          buf = Wire_requestFrom len rx
      in if Wire_available buf \<noteq> 0 then
           (case sl018_rx_loop 1 (snd (Wire_read buf)) ((data s)[0 := fst (Wire_read buf)]) of
              Inl e \<Rightarrow> Inl e
            | Inr d \<Rightarrow> Inr (d ! 0, s1\<lparr>data := d\<rparr>, w1))
         else Inr (0, s1, w1))"

text \<open>\<^verbatim>\<open>SL018::sendCommand\<close>: \<^verbatim>\<open>data[0] = 1; data[1] = cmd; transmitData();\<close>\<close>

definition sl018_sendCommand :: "byte \<Rightarrow> sl018 \<Rightarrow> world \<Rightarrow> fault + (sl018 \<times> world)" where
  "sl018_sendCommand c s w = sl018_transmitData (s\<lparr>data := (data s)[0 := 1, 1 := c]\<rparr>) w"

definition sl018_selectTag :: "sl018 \<Rightarrow> world \<Rightarrow> fault + (sl018 \<times> world)" where
  "sl018_selectTag s w = sl018_sendCommand SL018_CMD_SELECT s w"

text \<open>\<^verbatim>\<open>void seekTag() { selectTag(); cmd = CMD_SEEK; }\<close>\<close>

definition sl018_seekTag :: "sl018 \<Rightarrow> world \<Rightarrow> fault + (sl018 \<times> world)" where
  "sl018_seekTag s w =
     (case sl018_selectTag s w of
        Inl e \<Rightarrow> Inl e
      | Inr (s', w') \<Rightarrow> Inr (s'\<lparr>cmd := SL018_CMD_SEEK\<rparr>, w'))"

text \<open>\<^verbatim>\<open>void haltTag() { cmd = CMD_IDLE; }\<close>\<close>

definition sl018_haltTag :: "sl018 \<Rightarrow> sl018" where
  "sl018_haltTag s = s\<lparr>cmd := SL018_CMD_IDLE\<rparr>"

definition sl018_sleep :: "sl018 \<Rightarrow> world \<Rightarrow> fault + (sl018 \<times> world)" where
  "sl018_sleep s w = sl018_sendCommand SL018_CMD_SLEEP s w"


text \<open>
  The \<^verbatim>\<open>switch(cmd)\<close> at the head of \<^verbatim>\<open>SL018::available\<close>: the maximum length of
  the expected response.
\<close>

definition sl018_expected_len :: "byte \<Rightarrow> byte" where
  "sl018_expected_len c =
     (if c = SL018_CMD_IDLE \<or> c = SL018_CMD_RESET then 0
      else if c = SL018_CMD_LOGIN \<or> c = SL018_CMD_SET_LED \<or> c = SL018_CMD_SLEEP then 3
      else if c = SL018_CMD_READ4 \<or> c = SL018_CMD_WRITE4 \<or> c = SL018_CMD_READ_VALUE
            \<or> c = SL018_CMD_WRITE_VALUE \<or> c = SL018_CMD_DEC_VALUE
            \<or> c = SL018_CMD_INC_VALUE \<or> c = SL018_CMD_COPY_VALUE then 7
      else if c = SL018_CMD_WRITE_KEY then 9
      else if c = SL018_CMD_SEEK \<or> c = SL018_CMD_SELECT then 11
      else of_nat SL018_SIZE_PACKET)"

text \<open>
  \<^verbatim>\<open>SL018::available\<close>. The result is the returned boolean with the new state, or the
  fault of an access outside an array.
\<close>

definition sl018_available ::
  "sl018 \<Rightarrow> world \<Rightarrow> byte list \<Rightarrow> fault + (bool \<times> sl018 \<times> world)" where
  "sl018_available s w rx =
     (let len = sl018_expected_len (cmd s)
      in if len = 0 then Inr (False, s, w)
         else
           (case sl018_receiveData s w rx len of
              Inl e \<Rightarrow> Inl e
            | Inr (n, s1, w1) \<Rightarrow>
                if n > 0 then
                  (let s2 = (clear_tag s1)\<lparr>errorCode := data s1 ! 2\<rparr>
                   in if sl018_getCommand s2 = SL018_CMD_SEEK
                         \<or> sl018_getCommand s2 = SL018_CMD_SELECT then
                        (if errorCode s2 = 0 \<and> getPacketLength s2 \<ge> 7 then
                           (case copy_tag (s2\<lparr>tagLength := getPacketLength s2 - 3,
                                              tagType := data s2 ! unat (getPacketLength s2)\<rparr>) of
                              Inl e \<Rightarrow> Inl e
                            | Inr s3 \<Rightarrow> Inr (True, s3, w1))
                         else if cmd s2 = SL018_CMD_SEEK then
                           (case sl018_seekTag s2 w1 of
                              Inl e \<Rightarrow> Inl e
                            | Inr (s3, w3) \<Rightarrow> Inr (False, s3, w3))
                         else Inr (True, s2, w1))
                      else Inr (True, s2, w1))
                else Inr (False, s1, w1)))"

text \<open>The member functions of \<^verbatim>\<open>SL018\<close> that build a command packet.\<close>

definition sl018_authenticate :: "byte \<Rightarrow> sl018 \<Rightarrow> world \<Rightarrow> fault + (sl018 \<times> world)" where
  "sl018_authenticate sector s w =
     sl018_transmitData
       (s\<lparr>data := store_at 4 (replicate 6 0xFF)
                    ((data s)[0 := 9, 1 := SL018_CMD_LOGIN, 2 := sector, 3 := 0xAA])\<rparr>) w"

definition sl018_authenticate_key ::
  "byte \<Rightarrow> byte \<Rightarrow> memory \<Rightarrow> sl018 \<Rightarrow> world \<Rightarrow> fault + (sl018 \<times> world)" where
  "sl018_authenticate_key sector keyType key s w =
     sl018_transmitData
       (s\<lparr>data := store_at 4 (fetch key 6)
                    ((data s)[0 := 9, 1 := SL018_CMD_LOGIN, 2 := sector, 3 := keyType])\<rparr>) w"

definition sl018_readBlock :: "byte \<Rightarrow> sl018 \<Rightarrow> world \<Rightarrow> fault + (sl018 \<times> world)" where
  "sl018_readBlock block s w =
     sl018_transmitData (s\<lparr>data := (data s)[0 := 2, 1 := SL018_CMD_READ16, 2 := block]\<rparr>) w"

definition sl018_readPage :: "byte \<Rightarrow> sl018 \<Rightarrow> world \<Rightarrow> fault + (sl018 \<times> world)" where
  "sl018_readPage page s w =
     sl018_transmitData (s\<lparr>data := (data s)[0 := 2, 1 := SL018_CMD_READ4, 2 := page]\<rparr>) w"

text \<open>
  \<^verbatim>\<open>data[0] = 18; data[1] = CMD_WRITE16; data[2] = block;\<close>
  \<^verbatim>\<open>memcpy((char*)data + 3, message, 16); data[18] = 0; transmitData();\<close>
\<close>

definition sl018_writeBlock ::
  "byte \<Rightarrow> memory \<Rightarrow> sl018 \<Rightarrow> world \<Rightarrow> fault + (sl018 \<times> world)" where
  "sl018_writeBlock block message s w =
     sl018_transmitData
       (s\<lparr>data := (store_at 3 (fetch message 16)
                     ((data s)[0 := 18, 1 := SL018_CMD_WRITE16, 2 := block]))[18 := 0]\<rparr>) w"

text \<open>
  \<^verbatim>\<open>data[0] = 6; data[1] = CMD_WRITE4; data[2] = page;\<close>
  \<^verbatim>\<open>memcpy((char*)data + 3, message, 4); data[6] = 0; transmitData();\<close>
\<close>

definition sl018_writePage ::
  "byte \<Rightarrow> memory \<Rightarrow> sl018 \<Rightarrow> world \<Rightarrow> fault + (sl018 \<times> world)" where
  "sl018_writePage page message s w =
     sl018_transmitData
       (s\<lparr>data := (store_at 3 (fetch message 4)
                     ((data s)[0 := 6, 1 := SL018_CMD_WRITE4, 2 := page]))[6 := 0]\<rparr>) w"

definition sl018_writeKey ::
  "byte \<Rightarrow> memory \<Rightarrow> sl018 \<Rightarrow> world \<Rightarrow> fault + (sl018 \<times> world)" where
  "sl018_writeKey sector key s w =
     sl018_transmitData
       (s\<lparr>data := store_at 3 (fetch key 6)
                    ((data s)[0 := 8, 1 := SL018_CMD_WRITE_KEY, 2 := sector])\<rparr>) w"

definition sl018_led :: "bool \<Rightarrow> sl018 \<Rightarrow> world \<Rightarrow> fault + (sl018 \<times> world)" where
  "sl018_led on s w =
     sl018_transmitData
       (s\<lparr>data := (data s)[0 := 2, 1 := SL018_CMD_SET_LED, 2 := (if on then 1 else 0)]\<rparr>) w"

text \<open>
  The calls that send a command, as one type, with the command code and the parameter
  bytes each of them is to put on the bus. \<^verbatim>\<open>writeBlock\<close> and \<^verbatim>\<open>writePage\<close> send 15
  and 3 bytes of the message and a zero.
\<close>

datatype sl018_call =
    SL018_authenticate byte
  | SL018_authenticate_key byte byte memory
  | SL018_readBlock byte
  | SL018_readPage byte
  | SL018_writeBlock byte memory
  | SL018_writePage byte memory
  | SL018_writeKey byte memory
  | SL018_led bool
  | SL018_selectTag
  | SL018_seekTag
  | SL018_sleep
  | SL018_sendCommand byte

fun sl018_do :: "sl018_call \<Rightarrow> sl018 \<Rightarrow> world \<Rightarrow> fault + (sl018 \<times> world)" where
  "sl018_do (SL018_authenticate sector) = sl018_authenticate sector"
| "sl018_do (SL018_authenticate_key sector keyType key) = sl018_authenticate_key sector keyType key"
| "sl018_do (SL018_readBlock block) = sl018_readBlock block"
| "sl018_do (SL018_readPage page) = sl018_readPage page"
| "sl018_do (SL018_writeBlock block message) = sl018_writeBlock block message"
| "sl018_do (SL018_writePage page message) = sl018_writePage page message"
| "sl018_do (SL018_writeKey sector key) = sl018_writeKey sector key"
| "sl018_do (SL018_led on) = sl018_led on"
| "sl018_do SL018_selectTag = sl018_selectTag"
| "sl018_do SL018_seekTag = sl018_seekTag"
| "sl018_do SL018_sleep = sl018_sleep"
| "sl018_do (SL018_sendCommand c) = sl018_sendCommand c"

fun sl018_code :: "sl018_call \<Rightarrow> byte" where
  "sl018_code (SL018_authenticate sector) = SL018_CMD_LOGIN"
| "sl018_code (SL018_authenticate_key sector keyType key) = SL018_CMD_LOGIN"
| "sl018_code (SL018_readBlock block) = SL018_CMD_READ16"
| "sl018_code (SL018_readPage page) = SL018_CMD_READ4"
| "sl018_code (SL018_writeBlock block message) = SL018_CMD_WRITE16"
| "sl018_code (SL018_writePage page message) = SL018_CMD_WRITE4"
| "sl018_code (SL018_writeKey sector key) = SL018_CMD_WRITE_KEY"
| "sl018_code (SL018_led on) = SL018_CMD_SET_LED"
| "sl018_code SL018_selectTag = SL018_CMD_SELECT"
| "sl018_code SL018_seekTag = SL018_CMD_SELECT"
| "sl018_code SL018_sleep = SL018_CMD_SLEEP"
| "sl018_code (SL018_sendCommand c) = c"

fun sl018_params :: "sl018_call \<Rightarrow> byte list" where
  "sl018_params (SL018_authenticate sector) = [sector, 0xAA] @ replicate 6 0xFF"
| "sl018_params (SL018_authenticate_key sector keyType key) = [sector, keyType] @ fetch key 6"
| "sl018_params (SL018_readBlock block) = [block]"
| "sl018_params (SL018_readPage page) = [page]"
| "sl018_params (SL018_writeBlock block message) = [block] @ fetch message 15 @ [0]"
| "sl018_params (SL018_writePage page message) = [page] @ fetch message 3 @ [0]"
| "sl018_params (SL018_writeKey sector key) = [sector] @ fetch key 6"
| "sl018_params (SL018_led on) = [if on then 1 else 0]"
| "sl018_params SL018_selectTag = []"
| "sl018_params SL018_seekTag = []"
| "sl018_params SL018_sleep = []"
| "sl018_params (SL018_sendCommand c) = []"

subsection \<open>SM130 (Variant B)\<close>

abbreviation (input) SM130_SIZE_PAYLOAD :: nat where "SM130_SIZE_PAYLOAD \<equiv> 18"
abbreviation (input) SM130_SIZE_PACKET :: nat where "SM130_SIZE_PACKET \<equiv> 20"

abbreviation (input) SM130_CMD_RESET :: byte where "SM130_CMD_RESET \<equiv> 0x80"
abbreviation (input) SM130_CMD_VERSION :: byte where "SM130_CMD_VERSION \<equiv> 0x81"
abbreviation (input) SM130_CMD_SEEK_TAG :: byte where "SM130_CMD_SEEK_TAG \<equiv> 0x82"
abbreviation (input) SM130_CMD_SELECT_TAG :: byte where "SM130_CMD_SELECT_TAG \<equiv> 0x83"
abbreviation (input) SM130_CMD_AUTHENTICATE :: byte where "SM130_CMD_AUTHENTICATE \<equiv> 0x85"
abbreviation (input) SM130_CMD_READ16 :: byte where "SM130_CMD_READ16 \<equiv> 0x86"
abbreviation (input) SM130_CMD_READ_VALUE :: byte where "SM130_CMD_READ_VALUE \<equiv> 0x87"
abbreviation (input) SM130_CMD_WRITE16 :: byte where "SM130_CMD_WRITE16 \<equiv> 0x89"
abbreviation (input) SM130_CMD_WRITE_VALUE :: byte where "SM130_CMD_WRITE_VALUE \<equiv> 0x8a"
abbreviation (input) SM130_CMD_WRITE4 :: byte where "SM130_CMD_WRITE4 \<equiv> 0x8b"
abbreviation (input) SM130_CMD_WRITE_KEY :: byte where "SM130_CMD_WRITE_KEY \<equiv> 0x8c"
abbreviation (input) SM130_CMD_INC_VALUE :: byte where "SM130_CMD_INC_VALUE \<equiv> 0x8d"
abbreviation (input) SM130_CMD_DEC_VALUE :: byte where "SM130_CMD_DEC_VALUE \<equiv> 0x8e"
abbreviation (input) SM130_CMD_ANTENNA_POWER :: byte where "SM130_CMD_ANTENNA_POWER \<equiv> 0x90"
abbreviation (input) SM130_CMD_READ_PORT :: byte where "SM130_CMD_READ_PORT \<equiv> 0x91"
abbreviation (input) SM130_CMD_WRITE_PORT :: byte where "SM130_CMD_WRITE_PORT \<equiv> 0x92"
abbreviation (input) SM130_CMD_HALT_TAG :: byte where "SM130_CMD_HALT_TAG \<equiv> 0x93"
abbreviation (input) SM130_CMD_SET_BAUD :: byte where "SM130_CMD_SET_BAUD \<equiv> 0x94"
abbreviation (input) SM130_CMD_SLEEP :: byte where "SM130_CMD_SLEEP \<equiv> 0x96"

text \<open>
  The constructor, on an instance in zero-initialised static storage:
  \<^verbatim>\<open>pinRESET = 3; pinDREADY = 4; t = millis() + 10;\<close>
\<close>

definition sm130_init :: "world \<Rightarrow> sm130" where
  "sm130_init w =
     \<lparr>pinRESET = 3, pinDREADY = 4, data = replicate SM130_SIZE_PACKET 0,
      tagNumber = replicate 7 0, tagLength = 0, tagString = replicate 15 (CHR 0x00),
      tagType = 0, errorCode = 0, cmd = 0, t = millis w + 10,
      versionString = replicate 8 (CHR 0x00), antennaPower = 0\<rparr>"

definition sm130_wf :: "sm130 \<Rightarrow> bool" where
  "sm130_wf s \<longleftrightarrow>
     length (data s) = SM130_SIZE_PACKET \<and> length (tagNumber s) = 7
     \<and> length (tagString s) = 15 \<and> length (versionString s) = 8"

text \<open>\<^verbatim>\<open>byte getCommand() { return data[1]; }\<close>\<close>

definition sm130_getCommand :: "sm130 \<Rightarrow> byte" where
  "sm130_getCommand s = data s ! 1"

text \<open>\<^verbatim>\<open>byte getCheckSum() { return data[data[0]+1]; }\<close>\<close>

definition sm130_getCheckSum :: "sm130 \<Rightarrow> byte" where
  "sm130_getCheckSum s = data s ! (unat (data s ! 0) + 1)"

text \<open>
  The running sum of both SM130 loops, \<^verbatim>\<open>sum += data[i]\<close> from a zero start, over the
  bytes given.
\<close>

definition checksum :: "byte list \<Rightarrow> byte" where
  "checksum bs = foldl (\<lambda>sum b. sum + b) 0 bs"

text \<open>
  \<^verbatim>\<open>SM130::transmitData\<close>: the gate, \<^verbatim>\<open>byte len = data[0] + 1\<close>, \<^verbatim>\<open>cmd = data[1]\<close>,
  then the bytes \<^verbatim>\<open>data[0] .. data[len - 1]\<close> and their sum go to the bus as one frame.
\<close>

definition sm130_transmitData :: "sm130 \<Rightarrow> world \<Rightarrow> fault + (sm130 \<times> world)" where
  "sm130_transmitData s w =
     (let (now, t') = gate (t s) (millis w);
          len = data s ! 0 + 1
      in if unat len \<le> SM130_SIZE_PACKET then
           Inr (s\<lparr>t := t', cmd := data s ! 1\<rparr>,
                w\<lparr>millis := now,
                  wire_tx := wire_tx w
                    @ [take (unat len) (data s) @ [checksum (take (unat len) (data s))]]\<rparr>)
         else Inl (PacketOverrun SM130_SIZE_PACKET))"

text \<open>
  The read loop of \<^verbatim>\<open>SM130::receiveData\<close>:
  \<^verbatim>\<open>for (byte i = 0; i < n;) data[i++] = Wire.read();\<close>
\<close>

function sm130_rx_loop :: "nat \<Rightarrow> nat \<Rightarrow> byte list \<Rightarrow> byte list \<Rightarrow> fault + byte list" where
  "sm130_rx_loop i n buf d =
     (if i < n then
        (if i < SM130_SIZE_PACKET then
           sm130_rx_loop (i + 1) n (snd (Wire_read buf)) (d[i := fst (Wire_read buf)])
         else Inl (PacketOverrun i))
      else Inr d)"
  by pat_completeness auto
termination
  by (relation "measure (\<lambda>(i, n, buf, d). n - i)") auto

text \<open>
  \<^verbatim>\<open>SM130::receiveData(length)\<close> returns the length byte of the response, \<open>-1\<close> (the
  byte \<open>0xFF\<close>) when the checksum is wrong, and 0 when there is no response or its length
  byte is 0 or above \<^verbatim>\<open>SIZE_PAYLOAD\<close>.
\<close>

definition sm130_receiveData ::
  "sm130 \<Rightarrow> world \<Rightarrow> byte list \<Rightarrow> byte \<Rightarrow> fault + (byte \<times> sm130 \<times> world)" where
  "sm130_receiveData s w rx len =
     (let (now, t') = gate (t s) (millis w);
          s1 = s\<lparr>t := t'\<rparr>;
          w1 = w\<lparr>millis := now\<rparr>;
          buf = Wire_requestFrom len rx;
          n = Wire_available buf
      in if n > 0 then
           (case sm130_rx_loop 0 (unat n) buf (data s) of
              Inl e \<Rightarrow> Inl e
            | Inr d \<Rightarrow>
                if d ! 0 > 0 \<and> unat (d ! 0) \<le> SM130_SIZE_PAYLOAD then
                  (let i = unat (d ! 0) + 1;
                       sum = checksum (take i d)
                   in Inr (if sum = d ! i then d ! 0 else - 1, s1\<lparr>data := d\<rparr>, w1))
                else Inr (0, s1\<lparr>data := d\<rparr>, w1))
         else Inr (0, s1, w1))"

definition sm130_sendCommand :: "byte \<Rightarrow> sm130 \<Rightarrow> world \<Rightarrow> fault + (sm130 \<times> world)" where
  "sm130_sendCommand c s w = sm130_transmitData (s\<lparr>data := (data s)[0 := 1, 1 := c]\<rparr>) w"

definition sm130_seekTag :: "sm130 \<Rightarrow> world \<Rightarrow> fault + (sm130 \<times> world)" where
  "sm130_seekTag s w = sm130_sendCommand SM130_CMD_SEEK_TAG s w"

definition sm130_selectTag :: "sm130 \<Rightarrow> world \<Rightarrow> fault + (sm130 \<times> world)" where
  "sm130_selectTag s w = sm130_sendCommand SM130_CMD_SELECT_TAG s w"

text \<open>\<^verbatim>\<open>void haltTag() { sendCommand(CMD_HALT_TAG); }\<close>\<close>

definition sm130_haltTag :: "sm130 \<Rightarrow> world \<Rightarrow> fault + (sm130 \<times> world)" where
  "sm130_haltTag s w = sm130_sendCommand SM130_CMD_HALT_TAG s w"

definition sm130_sleep :: "sm130 \<Rightarrow> world \<Rightarrow> fault + (sm130 \<times> world)" where
  "sm130_sleep s w = sm130_sendCommand SM130_CMD_SLEEP s w"

definition sm130_setAntennaPower :: "byte \<Rightarrow> sm130 \<Rightarrow> world \<Rightarrow> fault + (sm130 \<times> world)" where
  "sm130_setAntennaPower level s w =
     sm130_transmitData
       (s\<lparr>antennaPower := level,
          data := (data s)[0 := 2, 1 := SM130_CMD_ANTENNA_POWER, 2 := level]\<rparr>) w"

definition sm130_authenticate :: "byte \<Rightarrow> sm130 \<Rightarrow> world \<Rightarrow> fault + (sm130 \<times> world)" where
  "sm130_authenticate block s w =
     sm130_transmitData
       (s\<lparr>data := (data s)[0 := 3, 1 := SM130_CMD_AUTHENTICATE, 2 := block, 3 := 0xFF]\<rparr>) w"

definition sm130_authenticate_key ::
  "byte \<Rightarrow> byte \<Rightarrow> memory \<Rightarrow> sm130 \<Rightarrow> world \<Rightarrow> fault + (sm130 \<times> world)" where
  "sm130_authenticate_key block keyType key s w =
     sm130_transmitData
       (s\<lparr>data := store_at 4 (fetch key 6)
                    ((data s)[0 := 9, 1 := SM130_CMD_AUTHENTICATE, 2 := block,
                              3 := keyType])\<rparr>) w"

definition sm130_readBlock :: "byte \<Rightarrow> sm130 \<Rightarrow> world \<Rightarrow> fault + (sm130 \<times> world)" where
  "sm130_readBlock block s w =
     sm130_transmitData (s\<lparr>data := (data s)[0 := 2, 1 := SM130_CMD_READ16, 2 := block]\<rparr>) w"

text \<open>
  \<^verbatim>\<open>data[0] = 18; data[1] = CMD_WRITE16; data[2] = block;\<close>
  \<^verbatim>\<open>strncpy((char*)data + 3, message, 15); data[18] = 0; transmitData();\<close>
\<close>

definition sm130_writeBlock ::
  "byte \<Rightarrow> byte list \<Rightarrow> sm130 \<Rightarrow> world \<Rightarrow> fault + (sm130 \<times> world)" where
  "sm130_writeBlock block message s w =
     sm130_transmitData
       (s\<lparr>data := (store_at 3 (strncpy message 15)
                     ((data s)[0 := 18, 1 := SM130_CMD_WRITE16, 2 := block]))[18 := 0]\<rparr>) w"

definition sm130_writeFourByteBlock ::
  "byte \<Rightarrow> byte list \<Rightarrow> sm130 \<Rightarrow> world \<Rightarrow> fault + (sm130 \<times> world)" where
  "sm130_writeFourByteBlock block message s w =
     sm130_transmitData
       (s\<lparr>data := (store_at 3 (strncpy message 3)
                     ((data s)[0 := 6, 1 := SM130_CMD_WRITE4, 2 := block]))[6 := 0]\<rparr>) w"


text \<open>
  The \<^verbatim>\<open>switch(cmd)\<close> at the head of \<^verbatim>\<open>SM130::available\<close>. The case of
  \<^verbatim>\<open>CMD_WRITE4\<close>, \<^verbatim>\<open>CMD_WRITE_VALUE\<close> and \<^verbatim>\<open>CMD_READ_VALUE\<close> sets \<^verbatim>\<open>len = 8\<close> and has
  no \<^verbatim>\<open>break\<close>: control goes on into the next case, which sets \<^verbatim>\<open>len = 11\<close>.
\<close>

definition sm130_expected_len :: "byte \<Rightarrow> byte" where
  "sm130_expected_len c =
     (if c = SM130_CMD_ANTENNA_POWER \<or> c = SM130_CMD_AUTHENTICATE \<or> c = SM130_CMD_DEC_VALUE
         \<or> c = SM130_CMD_INC_VALUE \<or> c = SM130_CMD_WRITE_KEY \<or> c = SM130_CMD_HALT_TAG
         \<or> c = SM130_CMD_SLEEP then 4
      else if c = SM130_CMD_WRITE4 \<or> c = SM130_CMD_WRITE_VALUE \<or> c = SM130_CMD_READ_VALUE
        then (let len = (8 :: byte) in 11)
      else if c = SM130_CMD_SEEK_TAG \<or> c = SM130_CMD_SELECT_TAG then 11
      else of_nat SM130_SIZE_PACKET)"

text \<open>
  The body of \<^verbatim>\<open>if (receiveData(len) > 0)\<close> in \<^verbatim>\<open>SM130::available\<close>: the response
  variables are initialised, \<^verbatim>\<open>errorCode = getPacketLength() < 3 ? data[2] : 0\<close>, and
  the \<^verbatim>\<open>switch (getCommand())\<close> follows. The boolean is the value returned.
\<close>

definition sm130_process :: "sm130 \<Rightarrow> fault + (bool \<times> sm130)" where
  "sm130_process s1 =
     (let s2 = (clear_tag s1)\<lparr>errorCode := (if getPacketLength s1 < 3 then data s1 ! 2 else 0)\<rparr>;
          c = sm130_getCommand s2
      in if c = SM130_CMD_RESET \<or> c = SM130_CMD_VERSION then
           (let len = (if getPacketLength s2 < 8 then getPacketLength s2 else 8) - 1;
                v = store (map (\<lambda>b. char_of (unat b)) (take (unat len) (drop 2 (data s2))))
                      (versionString s2)
            in Inr (True, s2\<lparr>versionString := v[unat len := CHR 0x00]\<rparr>))
         else if c = SM130_CMD_SEEK_TAG \<or> c = SM130_CMD_SELECT_TAG then
           (if errorCode s2 = 0 \<and> getPacketLength s2 \<ge> 6 then
              (case copy_tag (s2\<lparr>tagLength := getPacketLength s2 - 2, tagType := data s2 ! 2\<rparr>) of
                 Inl e \<Rightarrow> Inl e
               | Inr s3 \<Rightarrow> Inr (True, s3))
            else Inr (True, s2))
         else if c = SM130_CMD_ANTENNA_POWER then
           Inr (True, s2\<lparr>errorCode := 0, antennaPower := data s2 ! 2\<rparr>)
         else if c = SM130_CMD_SLEEP then Inr (False, s2)
         else Inr (True, s2))"

text \<open>\<^verbatim>\<open>SM130::available\<close>.\<close>

definition sm130_available ::
  "sm130 \<Rightarrow> world \<Rightarrow> byte list \<Rightarrow> fault + (bool \<times> sm130 \<times> world)" where
  "sm130_available s w rx =
     (if cmd s = SM130_CMD_SEEK_TAG \<and> pinDREADY s \<noteq> 0xFF \<and> \<not> dready w then Inr (False, s, w)
      else
        (case sm130_receiveData s w rx (sm130_expected_len (cmd s)) of
           Inl e \<Rightarrow> Inl e
         | Inr (n, s1, w1) \<Rightarrow>
             if n > 0 then
               (case sm130_process s1 of
                  Inl e \<Rightarrow> Inl e
                | Inr (b, s2) \<Rightarrow> Inr (b, s2, w1))
             else Inr (False, s1, w1)))"

text \<open>The calls of \<^verbatim>\<open>SM130\<close> that send a command, as one type.\<close>

datatype sm130_call =
    SM130_setAntennaPower byte
  | SM130_authenticate byte
  | SM130_authenticate_key byte byte memory
  | SM130_readBlock byte
  | SM130_writeBlock byte "byte list"
  | SM130_writeFourByteBlock byte "byte list"
  | SM130_seekTag
  | SM130_selectTag
  | SM130_haltTag
  | SM130_sleep
  | SM130_sendCommand byte

fun sm130_do :: "sm130_call \<Rightarrow> sm130 \<Rightarrow> world \<Rightarrow> fault + (sm130 \<times> world)" where
  "sm130_do (SM130_setAntennaPower level) = sm130_setAntennaPower level"
| "sm130_do (SM130_authenticate block) = sm130_authenticate block"
| "sm130_do (SM130_authenticate_key block keyType key) = sm130_authenticate_key block keyType key"
| "sm130_do (SM130_readBlock block) = sm130_readBlock block"
| "sm130_do (SM130_writeBlock block message) = sm130_writeBlock block message"
| "sm130_do (SM130_writeFourByteBlock block message) = sm130_writeFourByteBlock block message"
| "sm130_do SM130_seekTag = sm130_seekTag"
| "sm130_do SM130_selectTag = sm130_selectTag"
| "sm130_do SM130_haltTag = sm130_haltTag"
| "sm130_do SM130_sleep = sm130_sleep"
| "sm130_do (SM130_sendCommand c) = sm130_sendCommand c"

fun sm130_code :: "sm130_call \<Rightarrow> byte" where
  "sm130_code (SM130_setAntennaPower level) = SM130_CMD_ANTENNA_POWER"
| "sm130_code (SM130_authenticate block) = SM130_CMD_AUTHENTICATE"
| "sm130_code (SM130_authenticate_key block keyType key) = SM130_CMD_AUTHENTICATE"
| "sm130_code (SM130_readBlock block) = SM130_CMD_READ16"
| "sm130_code (SM130_writeBlock block message) = SM130_CMD_WRITE16"
| "sm130_code (SM130_writeFourByteBlock block message) = SM130_CMD_WRITE4"
| "sm130_code SM130_seekTag = SM130_CMD_SEEK_TAG"
| "sm130_code SM130_selectTag = SM130_CMD_SELECT_TAG"
| "sm130_code SM130_haltTag = SM130_CMD_HALT_TAG"
| "sm130_code SM130_sleep = SM130_CMD_SLEEP"
| "sm130_code (SM130_sendCommand c) = c"

fun sm130_params :: "sm130_call \<Rightarrow> byte list" where
  "sm130_params (SM130_setAntennaPower level) = [level]"
| "sm130_params (SM130_authenticate block) = [block, 0xFF]"
| "sm130_params (SM130_authenticate_key block keyType key) = [block, keyType] @ fetch key 6"
| "sm130_params (SM130_readBlock block) = [block]"
| "sm130_params (SM130_writeBlock block message) = [block] @ strncpy message 15 @ [0]"
| "sm130_params (SM130_writeFourByteBlock block message) = [block] @ strncpy message 3 @ [0]"
| "sm130_params SM130_seekTag = []"
| "sm130_params SM130_selectTag = []"
| "sm130_params SM130_haltTag = []"
| "sm130_params SM130_sleep = []"
| "sm130_params (SM130_sendCommand c) = []"

section \<open>Properties\<close>

lemma nibble_bound: "unat ((b::byte) AND 0x0f) < 16"
proof -
  have "b AND 0x0f \<le> 0x0f"
    by (rule word_and_le1)
  then have "unat (b AND 0x0f) \<le> unat (0x0f :: byte)"
    by (simp only: word_le_nat_alt)
  also have "\<dots> < 16"
    by simp
  finally show ?thesis .
qed

lemma toHex_low: "toHex b = toHex (b AND 0x0f)"
  by (simp add: toHex_def)

lemma toHex_table: "\<forall>n \<in> set [0..<16]. toHex (of_nat n) = ''0123456789ABCDEF'' ! n"
  by code_simp

lemma toHex_nth: "toHex b = ''0123456789ABCDEF'' ! unat (b AND 0x0f)"
proof -
  let ?n = "unat (b AND 0x0f)"
  have "?n \<in> set [0..<16]" using nibble_bound [of b] by simp
  with toHex_table have "toHex (of_nat ?n) = ''0123456789ABCDEF'' ! ?n" by blast
  then show ?thesis using toHex_low [of b] by simp
qed

lemma toHex_digit: "toHex b \<in> set ''0123456789ABCDEF''"
  unfolding toHex_nth by (rule nth_mem) (use nibble_bound [of b] in simp)

declare busy_wait.simps [simp del]
declare sl018_rx_loop.simps [simp del]
declare sm130_rx_loop.simps [simp del]

lemma Wire_reads_take: "n \<le> length buf \<Longrightarrow> Wire_reads n buf = take n buf"
  by (induction n arbitrary: buf) (auto simp: Wire_read_def split: list.splits)

lemma length_Wire_reads [simp]: "length (Wire_reads n buf) = n"
  by (induction n arbitrary: buf) auto

lemma sl018_rx_loop_eq:
  "length d = 19 \<Longrightarrow> 0 < i \<Longrightarrow> i \<le> unat (d ! 0) + 1 \<Longrightarrow> unat (d ! 0) < 19 \<Longrightarrow>
   sl018_rx_loop i buf d =
     Inr (take i d @ Wire_reads (unat (d ! 0) + 1 - i) buf @ drop (unat (d ! 0) + 1) d)"
proof (induction i buf d rule: sl018_rx_loop.induct)
  case (1 i buf d)
  let ?L = "unat (d ! 0)"
  show ?case
  proof (cases "i \<le> ?L")
    case False
    with 1(4) have "i = ?L + 1" by simp
    then show ?thesis
      by (subst sl018_rx_loop.simps) simp
  next
    case True
    let ?b = "fst (Wire_read buf)"
    let ?d = "d[i := ?b]"
    from True 1(5) have i19: "i < 19" by simp
    have d0: "?d ! 0 = d ! 0" using 1(3) by simp
    have "sl018_rx_loop (i + 1) (snd (Wire_read buf)) ?d =
        Inr (take (i + 1) ?d @ Wire_reads (unat (?d ! 0) + 1 - (i + 1)) (snd (Wire_read buf))
             @ drop (unat (?d ! 0) + 1) ?d)"
      using True i19 1(2) 1(5) d0 by (intro 1(1)) simp_all
    moreover have "take (i + 1) ?d = take i d @ [?b]"
      using i19 1(2) by (simp add: take_Suc_conv_app_nth)
    moreover have "drop (?L + 1) ?d = drop (?L + 1) d"
      using True by simp
    moreover have "Wire_reads (?L + 1 - i) buf = ?b # Wire_reads (?L - i) (snd (Wire_read buf))"
      using True by (simp add: Suc_diff_le)
    ultimately show ?thesis
      using True i19 d0 by (subst sl018_rx_loop.simps) simp
  qed
qed

lemma sl018_rx_loop_overrun:
  "0 < i \<Longrightarrow> i \<le> 19 \<Longrightarrow> 19 \<le> unat (d ! 0) \<Longrightarrow> sl018_rx_loop i buf d = Inl (PacketOverrun 19)"
proof (induction i buf d rule: sl018_rx_loop.induct)
  case (1 i buf d)
  show ?case
  proof (cases "i < 19")
    case True
    then have "sl018_rx_loop (i + 1) (snd (Wire_read buf)) (d[i := fst (Wire_read buf)]) = Inl (PacketOverrun 19)"
      using 1 by (intro 1(1)) simp_all
    then show ?thesis using True 1 by (subst sl018_rx_loop.simps) simp
  next
    case False
    with 1 have "i = 19" by simp
    then show ?thesis using 1 by (subst sl018_rx_loop.simps) simp
  qed
qed

lemma sm130_rx_loop_eq:
  "length d = 20 \<Longrightarrow> i \<le> n \<Longrightarrow> n \<le> 20 \<Longrightarrow>
   sm130_rx_loop i n buf d = Inr (take i d @ Wire_reads (n - i) buf @ drop n d)"
proof (induction i n buf d rule: sm130_rx_loop.induct)
  case (1 i n buf d)
  show ?case
  proof (cases "i < n")
    case False
    with 1(3) have "i = n" by simp
    then show ?thesis by (subst sm130_rx_loop.simps) simp
  next
    case True
    let ?b = "fst (Wire_read buf)"
    let ?d = "d[i := ?b]"
    from True 1(4) have i20: "i < 20" by simp
    have "sm130_rx_loop (i + 1) n (snd (Wire_read buf)) ?d =
        Inr (take (i + 1) ?d @ Wire_reads (n - (i + 1)) (snd (Wire_read buf)) @ drop n ?d)"
      using True i20 1(2) 1(4) by (intro 1(1)) simp_all
    moreover have "take (i + 1) ?d = take i d @ [?b]"
      using i20 1(2) by (simp add: take_Suc_conv_app_nth)
    moreover have "drop n ?d = drop n d"
      using True by simp
    moreover have "Wire_reads (n - i) buf = ?b # Wire_reads (n - (i + 1)) (snd (Wire_read buf))"
    proof -
      from True have "n - i = Suc (n - (i + 1))" by simp
      then show ?thesis by (simp only: Wire_reads.simps)
    qed
    ultimately show ?thesis
      using True i20 by (subst sm130_rx_loop.simps) simp
  qed
qed

lemma busy_wait_eq: "busy_wait d now = (if now < d then d else now)"
proof (induction d now rule: busy_wait.induct)
  case (1 d now)
  show ?case
  proof (cases "now < d")
    case True
    then have "now + 1 \<le> d" by (simp add: inc_le)
    with True 1 show ?thesis
      by (subst busy_wait.simps) auto
  next
    case False
    then show ?thesis by (subst busy_wait.simps) simp
  qed
qed

lemma gate_eq: "gate d now = (if now < d then (d, d + 20) else (now, now + 20))"
  by (simp add: gate_def busy_wait_eq Let_def)

lemma Wire_available_0: "length buf < 256 \<Longrightarrow> Wire_available buf = 0 \<longleftrightarrow> buf = []"
proof -
  assume "length buf < 256"
  then have "unat (of_nat (length buf) :: byte) = length buf"
    by (simp add: unat_of_nat)
  then have "(of_nat (length buf) :: byte) = 0 \<longleftrightarrow> length buf = 0"
    by (metis unat_eq_0)
  then show ?thesis by (simp add: Wire_available_def)
qed

lemma length_requestFrom: "length (Wire_requestFrom len rx) \<le> unat len"
  by (simp add: Wire_requestFrom_def)

lemma length_requestFrom_256: "length (Wire_requestFrom len rx) < 256"
proof -
  have "unat len < 2 ^ LENGTH(8)" by (rule unsigned_less)
  with length_requestFrom [of len rx] show ?thesis by simp
qed

lemma sl018_receiveData_ok:
  assumes "sl018_wf s" and "Wire_requestFrom len rx = b # bs" and "unat b < 19"
  shows "sl018_receiveData s w rx len =
    Inr (b, s\<lparr>t := snd (gate (t s) (millis w)),
               data := b # Wire_reads (unat b) bs @ drop (unat b + 1) (data s)\<rparr>,
         w\<lparr>millis := fst (gate (t s) (millis w))\<rparr>)"
proof -
  let ?d = "(data s)[0 := b]"
  have len: "length ?d = 19" using assms(1) by (simp add: sl018_wf_def)
  have d0: "?d ! 0 = b" using assms(1) by (simp add: sl018_wf_def)
  have av: "Wire_available (b # bs) \<noteq> 0"
    using Wire_available_0 [of "Wire_requestFrom len rx"] length_requestFrom_256 [of len rx] assms(2)
    by simp
  have "sl018_rx_loop 1 bs ?d = Inr (take 1 ?d @ Wire_reads (unat (?d ! 0) + 1 - 1) bs @ drop (unat (?d ! 0) + 1) ?d)"
    using len assms(3) d0 by (intro sl018_rx_loop_eq) simp_all
  then have loop: "sl018_rx_loop 1 bs ?d = Inr (b # Wire_reads (unat b) bs @ drop (unat b + 1) (data s))"
    using len d0 by (simp add: take_Suc_conv_app_nth)
  show ?thesis
    using av loop assms(2)
    by (simp add: sl018_receiveData_def Let_def split_beta Wire_read_def)
qed

lemma sl018_receiveData_overrun:
  assumes "Wire_requestFrom len rx = b # bs" and "19 \<le> unat b" and "data s \<noteq> []"
  shows "sl018_receiveData s w rx len = Inl (PacketOverrun 19)"
proof -
  let ?d = "(data s)[0 := b]"
  have d0: "?d ! 0 = b" using assms(3) by simp
  have av: "Wire_available (b # bs) \<noteq> 0"
    using Wire_available_0 [of "Wire_requestFrom len rx"] length_requestFrom_256 [of len rx] assms(1)
    by simp
  have loop: "sl018_rx_loop 1 bs ?d = Inl (PacketOverrun 19)"
    using assms(2) d0 by (intro sl018_rx_loop_overrun) simp_all
  show ?thesis
    using av loop assms(1)
    by (simp add: sl018_receiveData_def Let_def split_beta Wire_read_def)
qed

lemma arrayToHex_split: "arrayToHex array len = hex_digits array (unat len) @ [CHR 0x00]"
  by (simp add: arrayToHex_def hex_digits_def)


lemma set_hex_digits: "set (hex_digits array n) \<subseteq> set ''0123456789ABCDEF''"
proof -
  define D where "D = set ''0123456789ABCDEF''"
  have "toHex b \<in> D" for b
    unfolding D_def by (rule toHex_digit)
  then have "set (hex_digits array n) \<subseteq> D"
    by (auto simp: hex_digits_def)
  then show ?thesis
    unfolding D_def .
qed

lemma c_str_terminated:
  assumes "CHR 0x00 \<notin> set cs"
  shows "c_str (cs @ CHR 0x00 # rest) = cs"
  using assms by (induction cs) (auto simp: c_str_def)

lemma hex_digits_no_nul: "CHR 0x00 \<notin> set (hex_digits array n)"
  using set_hex_digits [of array n] by auto

lemma c_str_arrayToHex: "c_str (arrayToHex array len @ rest) = hex_digits array (unat len)"
  by (simp add: arrayToHex_split c_str_terminated hex_digits_no_nul)

lemma hex_digits_take: "hex_digits (take n array) n = hex_digits array n"
proof -
  have "map (\<lambda>i. [toHex (drop_bit 4 (take n array ! i)), toHex (take n array ! i)]) [0..<n]
      = map (\<lambda>i. [toHex (drop_bit 4 (array ! i)), toHex (array ! i)]) [0..<n]"
    by (rule map_cong) simp_all
  then show ?thesis
    by (simp only: hex_digits_def)
qed

subsection \<open>Hexadecimal tag strings\<close>


subsection \<open>The transport gate\<close>

text \<open>
  Claim C9. The gate is to keep 20 ms between two bus transactions and never to wait
  longer than that. The clock is a 32-bit counter of milliseconds and wraps around. A
  transaction at clock reading \<open>0xFFFFFFF6\<close> leaves the deadline 10, behind the wrap; the
  next call, one millisecond later, passes the gate at once. And with the deadline
  \<open>0xFFFFFFFB\<close> stored, a call at clock reading 3, after the wrap, waits until the
  clock has gone round to \<open>0xFFFFFFFB\<close>.
\<close>

theorem gate_clock_rollover:
  "gate 0 0xFFFFFFF6 = (0xFFFFFFF6, 10)
   \<and> gate 10 0xFFFFFFF7 = (0xFFFFFFF7, 11)
   \<and> gate 0xFFFFFFFB 3 = (0xFFFFFFFB, 15)"
  by (simp add: gate_eq)

text \<open>
  Away from the wrap the gate does what is claimed: it lets the caller through no
  earlier than the deadline, sets the next deadline 20 ms later, and a deadline that is
  at most 20 ms ahead makes it wait at most 20 ms. Two calls in a row then pass the gate
  at least 20 ms apart.
\<close>

lemma gate_no_rollover:
  assumes "gate d now = (now', d')"
  shows "now \<le> now' \<and> d \<le> now' \<and> d' = now' + 20
         \<and> (unat d \<le> unat now + 20 \<longrightarrow> unat now' - unat now \<le> 20)"
  using assms by (auto simp: gate_eq word_le_nat_alt word_less_nat_alt split: if_splits)

lemma gate_separation:
  assumes "gate d now = (n1, d1)" and "gate d1 now2 = (n2, d2)" and "unat n1 + 20 < 2 ^ 32"
  shows "unat n1 + 20 \<le> unat n2"
proof -
  have d1: "d1 = n1 + 20"
    using assms(1) by (auto simp: gate_eq split: if_splits)
  have "unat n1 + unat (20 :: ulong) < 2 ^ LENGTH(32)"
    using assms(3) by simp
  then have "unat (n1 + 20) = unat n1 + unat (20 :: ulong)"
    by (simp only: unat_add_lem)
  then have "unat d1 = unat n1 + 20"
    using d1 by simp
  moreover have "d1 \<le> n2"
    using assms(2) by (auto simp: gate_eq split: if_splits)
  ultimately show ?thesis
    by (simp add: word_le_nat_alt)
qed

subsection \<open>Writes of the packet decoder\<close>

text \<open>
  Claim C10. The decoder is to write inside the packet buffer whatever the bus delivers.
  The SL018 read loop runs up to the length byte of the response and has no other bound:
  after a read-block command, a response that starts with the length byte 19 makes it
  write \<^verbatim>\<open>data[19]\<close>, one past the 19 cells of the buffer.
\<close>

theorem sl018_packet_overrun:
  "sl018_available
     ((sl018_init \<lparr>millis = 0, wire_tx = [], gpio = [], dready = False\<rparr>)\<lparr>cmd := SL018_CMD_READ16\<rparr>)
     \<lparr>millis = 0, wire_tx = [], gpio = [], dready = False\<rparr>
     [0x13, 0x03, 0x00, 1, 2, 3, 4, 5, 6, 7, 8, 9, 10, 11, 12, 13, 14, 15, 16]
   = Inl (PacketOverrun 19)"
  by (simp add: sl018_available_def sl018_expected_len_def sl018_init_def
        sl018_receiveData_overrun [where b = "0x13"] Wire_requestFrom_def)

text \<open>
  The SM130 read loop runs up to the number of bytes the bus has delivered, which is at
  most the number requested, and that is at most 20: it stays inside its buffer.
\<close>

lemma sm130_expected_len_le: "unat (sm130_expected_len c) \<le> 20"
  by (simp add: sm130_expected_len_def)

lemma sm130_receiveData_in_bounds:
  assumes "sm130_wf s" and "unat len \<le> 20"
  shows "\<exists>r s'. sm130_receiveData s w rx len =
           Inr (r, s', w\<lparr>millis := fst (gate (t s) (millis w))\<rparr>) \<and> sm130_wf s'"
proof -
  let ?buf = "Wire_requestFrom len rx"
  have n: "unat (Wire_available ?buf) = length ?buf"
    using length_requestFrom_256 [of len rx] by (simp add: Wire_available_def unat_of_nat)
  have le: "length ?buf \<le> 20" using length_requestFrom [of len rx] assms(2) by simp
  have len: "length (data s) = 20" using assms(1) by (simp add: sm130_wf_def)
  have loop: "sm130_rx_loop 0 (length ?buf) ?buf (data s) =
      Inr (take 0 (data s) @ Wire_reads (length ?buf - 0) ?buf @ drop (length ?buf) (data s))"
    using len le by (intro sm130_rx_loop_eq) simp_all
  show ?thesis
    using loop n len le assms(1)
    by (simp add: sm130_receiveData_def Let_def split_beta sm130_wf_def)
qed

subsection \<open>A response with a wrong checksum\<close>

text \<open>
  Claim C1. A response of the SM130 whose checksum byte is wrong is to be reported as a
  fault and dropped, with no tag field and no error code taken from it.
  \<^verbatim>\<open>receiveData\<close> does return \<open>-1\<close> for it, but its result type is \<^verbatim>\<open>byte\<close>, so the
  caller sees 255, and \<^verbatim>\<open>available\<close> tests \<^verbatim>\<open>receiveData(len) > 0\<close>: the response
  is processed as a valid one. After a select command, the response
  \<open>06 83 02 AA BB CC DD\<close> with checksum byte \<open>00\<close> instead of \<open>99\<close> sets the tag type,
  length and string and makes \<^verbatim>\<open>available\<close> return true; the response \<open>02 83 4E\<close>
  with checksum byte \<open>00\<close> sets the error code \<open>4E\<close>.
\<close>

theorem sm130_bad_checksum_accepted:
  "(case bindF (sm130_selectTag (sm130_init \<lparr>millis = 0, wire_tx = [], gpio = [], dready = False\<rparr>)
                  \<lparr>millis = 0, wire_tx = [], gpio = [], dready = False\<rparr>)
           (\<lambda>(s, w). sm130_receiveData s w [6, 0x83, 2, 0xAA, 0xBB, 0xCC, 0xDD, 0x00] 11) of
      Inr (n, s', w') \<Rightarrow> n = - 1 \<and> getPacketLength s' = 6 \<and> sm130_getCheckSum s' = 0
                         \<and> checksum (take 7 (data s')) = 0x99
    | Inl e \<Rightarrow> False)
   \<and> (case bindF (sm130_selectTag (sm130_init \<lparr>millis = 0, wire_tx = [], gpio = [], dready = False\<rparr>)
                  \<lparr>millis = 0, wire_tx = [], gpio = [], dready = False\<rparr>)
           (\<lambda>(s, w). sm130_available s w [6, 0x83, 2, 0xAA, 0xBB, 0xCC, 0xDD, 0x00]) of
      Inr (b, s', w') \<Rightarrow> b \<and> tagType s' = 2 \<and> tagLength s' = 4
                         \<and> getTagString s' = ''AABBCCDD'' \<and> errorCode s' = 0
    | Inl e \<Rightarrow> False)
   \<and> (case bindF (sm130_selectTag (sm130_init \<lparr>millis = 0, wire_tx = [], gpio = [], dready = False\<rparr>)
                  \<lparr>millis = 0, wire_tx = [], gpio = [], dready = False\<rparr>)
           (\<lambda>(s, w). sm130_available s w [2, 0x83, 0x4E, 0x00]) of
      Inr (b, s', w') \<Rightarrow> b \<and> errorCode s' = 0x4E
    | Inl e \<Rightarrow> False)"
  by code_simp

subsection \<open>Expected response lengths\<close>

lemma requestFrom_take: "Wire_requestFrom len (take (unat len) rx) = Wire_requestFrom len rx"
  by (simp add: Wire_requestFrom_def)

lemma sl018_receiveData_requests:
  "sl018_receiveData s w (take (unat len) rx) len = sl018_receiveData s w rx len"
  by (simp only: sl018_receiveData_def requestFrom_take)

lemma sm130_receiveData_requests:
  "sm130_receiveData s w (take (unat len) rx) len = sm130_receiveData s w rx len"
  by (simp only: sm130_receiveData_def requestFrom_take)

lemma sl018_available_requests:
  "sl018_available s w (take (unat (sl018_expected_len (cmd s))) rx) = sl018_available s w rx"
  by (simp only: sl018_available_def Let_def sl018_receiveData_requests)

lemma sm130_available_requests:
  "sm130_available s w (take (unat (sm130_expected_len (cmd s))) rx) = sm130_available s w rx"
  by (simp only: sm130_available_def sm130_receiveData_requests)

lemma sl018_len_switch:
  "sl018_expected_len c =
     (if c \<in> {SL018_CMD_IDLE, SL018_CMD_RESET} then 0
      else if c \<in> {SL018_CMD_LOGIN, SL018_CMD_SET_LED, SL018_CMD_SLEEP} then 3
      else if c \<in> {SL018_CMD_READ4, SL018_CMD_WRITE4, SL018_CMD_READ_VALUE, SL018_CMD_WRITE_VALUE,
                    SL018_CMD_DEC_VALUE, SL018_CMD_INC_VALUE, SL018_CMD_COPY_VALUE} then 7
      else if c = SL018_CMD_WRITE_KEY then 9
      else if c \<in> {SL018_CMD_SEEK, SL018_CMD_SELECT} then 11
      else 19)"
  unfolding sl018_expected_len_def insert_iff empty_iff by simp

lemma sm130_len_switch:
  "c \<notin> {SM130_CMD_WRITE4, SM130_CMD_WRITE_VALUE, SM130_CMD_READ_VALUE} \<Longrightarrow>
       sm130_expected_len c =
         (if c \<in> {SM130_CMD_ANTENNA_POWER, SM130_CMD_AUTHENTICATE, SM130_CMD_DEC_VALUE,
                   SM130_CMD_INC_VALUE, SM130_CMD_WRITE_KEY, SM130_CMD_HALT_TAG, SM130_CMD_SLEEP} then 4
          else if c \<in> {SM130_CMD_SEEK_TAG, SM130_CMD_SELECT_TAG} then 11
          else 20)"
  unfolding sm130_expected_len_def insert_iff empty_iff by simp

text \<open>
  Claim C2, as stated, fails on the code for the SL018. A reset is one of the other
  commands, but it is not answered with a request of the full packet size; and after a
  halt the request is not one of 3 or 4 bytes. In both cases the length is 0 and nothing
  is requested from the bus.
\<close>

theorem expected_len_counterexample:
  "sl018_expected_len SL018_CMD_RESET \<noteq> of_nat SL018_SIZE_PACKET
   \<and> sl018_expected_len SL018_CMD_RESET = 0
   \<and> sl018_expected_len
         (cmd (sl018_haltTag (sl018_init \<lparr>millis = 0, wire_tx = [], gpio = [], dready = False\<rparr>)))
       \<notin> {3, 4}"
  by (simp add: sl018_expected_len_def sl018_haltTag_def)

text \<open>
  Claim C2, amended. The SL018 requests nothing when idle (as after a halt) or after a
  reset, 3 bytes after login, LED and sleep, 7 after a page read or write and after the
  value commands, 9 after a key write, 11 after seek and select, and the full 19 bytes
  after every other command. The SM130 requests 4 bytes after antenna power,
  authenticate, value increment and decrement, key write, halt and sleep, 11 after seek
  and select, and the full 20 bytes after every other command but the page write and the
  value write and read, which are left open here. No byte of the response beyond the
  requested length is looked at.
\<close>

theorem expected_len_table:
  "sl018_expected_len c =
     (if c \<in> {SL018_CMD_IDLE, SL018_CMD_RESET} then 0
      else if c \<in> {SL018_CMD_LOGIN, SL018_CMD_SET_LED, SL018_CMD_SLEEP} then 3
      else if c \<in> {SL018_CMD_READ4, SL018_CMD_WRITE4, SL018_CMD_READ_VALUE, SL018_CMD_WRITE_VALUE,
                    SL018_CMD_DEC_VALUE, SL018_CMD_INC_VALUE, SL018_CMD_COPY_VALUE} then 7
      else if c = SL018_CMD_WRITE_KEY then 9
      else if c \<in> {SL018_CMD_SEEK, SL018_CMD_SELECT} then 11
      else 19)
   \<and> (c \<notin> {SM130_CMD_WRITE4, SM130_CMD_WRITE_VALUE, SM130_CMD_READ_VALUE} \<longrightarrow>
       sm130_expected_len c =
         (if c \<in> {SM130_CMD_ANTENNA_POWER, SM130_CMD_AUTHENTICATE, SM130_CMD_DEC_VALUE,
                   SM130_CMD_INC_VALUE, SM130_CMD_WRITE_KEY, SM130_CMD_HALT_TAG, SM130_CMD_SLEEP} then 4
          else if c \<in> {SM130_CMD_SEEK_TAG, SM130_CMD_SELECT_TAG} then 11
          else 20))
   \<and> sl018_available sa wa (take (unat (sl018_expected_len (cmd sa))) rx) = sl018_available sa wa rx
   \<and> sm130_available sb wb (take (unat (sm130_expected_len (cmd sb))) rx) = sm130_available sb wb rx"
  using sl018_len_switch [of c] sm130_len_switch [of c]
    sl018_available_requests [of sa wa rx] sm130_available_requests [of sb wb rx]
  by blast

theorem expected_len_table_witness:
  "SM130_CMD_VERSION \<notin> {SM130_CMD_WRITE4, SM130_CMD_WRITE_VALUE, SM130_CMD_READ_VALUE}
   \<and> sm130_expected_len SM130_CMD_VERSION = 20 \<and> sl018_expected_len SM130_CMD_VERSION = 19"
  using expected_len_table [of SM130_CMD_VERSION] by simp

subsection \<open>Outbound frames\<close>

lemma length19_explicit:
  assumes "length (xs :: 'a list) = 19"
  obtains a0 a1 a2 a3 a4 a5 a6 a7 a8 a9 a10 a11 a12 a13 a14 a15 a16 a17 a18
  where "xs = [a0, a1, a2, a3, a4, a5, a6, a7, a8, a9, a10, a11, a12, a13, a14, a15, a16, a17, a18]"
  using assms by (auto simp: length_Suc_conv eval_nat_numeral)

lemma length20_explicit:
  assumes "length (xs :: 'a list) = 20"
  obtains a0 a1 a2 a3 a4 a5 a6 a7 a8 a9 a10 a11 a12 a13 a14 a15 a16 a17 a18 a19
  where "xs = [a0, a1, a2, a3, a4, a5, a6, a7, a8, a9, a10, a11, a12, a13, a14, a15, a16, a17, a18, a19]"
  using assms by (auto simp: length_Suc_conv eval_nat_numeral)

lemma length_strncpy: "length (strncpy src n) = n"
  by (simp add: strncpy_def Let_def)

lemma length_fetch: "length (fetch src n) = n"
  by (simp add: fetch_def)

lemma fetch_Suc: "fetch src (Suc n) = fetch src n @ [src n]"
  by (simp add: fetch_def)

lemma fetch_update_last: "(fetch src (Suc n) @ ys)[n := v] = fetch src n @ v # ys"
  by (simp add: fetch_Suc list_update_append length_fetch)

lemma fetch16_update: "(fetch src 16 @ ys)[15 := v] = fetch src 15 @ v # ys"
  using fetch_update_last [of src 15 ys v] by simp

lemma fetch16_update': "(fetch src 16)[15 := v] = fetch src 15 @ [v]"
  using fetch16_update [of src "[]" v] by simp

lemma fetch4_update: "(fetch src 4 @ ys)[3 := v] = fetch src 3 @ v # ys"
  using fetch_update_last [of src 3 ys v] by simp

lemma sl018_transmitData_eq:
  "unat (data s ! 0) < 19 \<Longrightarrow>
   sl018_transmitData s w =
     Inr (s\<lparr>t := snd (gate (t s) (millis w)), cmd := data s ! 1\<rparr>,
          w\<lparr>millis := fst (gate (t s) (millis w)),
            wire_tx := wire_tx w @ [take (unat (data s ! 0) + 1) (data s)]\<rparr>)"
  by (simp add: sl018_transmitData_def Let_def split_beta)

lemma sl018_do_frame:
  assumes "sl018_wf s"
  shows "\<exists>s'. sl018_do c s w =
           Inr (s', w\<lparr>millis := fst (gate (t s) (millis w)),
                      wire_tx := wire_tx w
                        @ [of_nat (1 + length (sl018_params c)) # sl018_code c # sl018_params c]\<rparr>)
         \<and> cmd s' = (if c = SL018_seekTag then SL018_CMD_SEEK else sl018_code c)"
proof -
  from assms have "length (data s) = 19" by (simp add: sl018_wf_def)
  then obtain a0 a1 a2 a3 a4 a5 a6 a7 a8 a9 a10 a11 a12 a13 a14 a15 a16 a17 a18
    where d: "data s = [a0, a1, a2, a3, a4, a5, a6, a7, a8, a9, a10, a11, a12, a13, a14, a15, a16, a17, a18]"
    by (rule length19_explicit)
  show ?thesis
  proof (cases c)
    case (SL018_authenticate sector)
    then show ?thesis
      by (simp add: d sl018_authenticate_def store_at_def sl018_transmitData_eq)
  next
    case (SL018_authenticate_key sector keyType key)
    then show ?thesis
      by (simp add: d sl018_authenticate_key_def store_at_def sl018_transmitData_eq length_fetch)
  next
    case (SL018_readBlock block)
    then show ?thesis
      by (simp add: d sl018_readBlock_def sl018_transmitData_eq)
  next
    case (SL018_readPage page)
    then show ?thesis
      by (simp add: d sl018_readPage_def sl018_transmitData_eq)
  next
    case (SL018_writeBlock block message)
    then show ?thesis
      by (simp add: d sl018_writeBlock_def store_at_def sl018_transmitData_eq length_fetch
          fetch16_update fetch16_update')
  next
    case (SL018_writePage page message)
    then show ?thesis
      by (simp add: d sl018_writePage_def store_at_def sl018_transmitData_eq length_fetch
          fetch4_update)
  next
    case (SL018_writeKey sector key)
    then show ?thesis
      by (simp add: d sl018_writeKey_def store_at_def sl018_transmitData_eq length_fetch)
  next
    case (SL018_led on)
    then show ?thesis
      by (simp add: d sl018_led_def sl018_transmitData_eq)
  next
    case SL018_selectTag
    then show ?thesis
      by (simp add: d sl018_selectTag_def sl018_sendCommand_def sl018_transmitData_eq)
  next
    case SL018_seekTag
    then show ?thesis
      by (simp add: d sl018_seekTag_def sl018_selectTag_def sl018_sendCommand_def sl018_transmitData_eq)
  next
    case SL018_sleep
    then show ?thesis
      by (simp add: d sl018_sleep_def sl018_sendCommand_def sl018_transmitData_eq)
  next
    case (SL018_sendCommand x)
    then show ?thesis
      by (simp add: d sl018_sendCommand_def sl018_transmitData_eq)
  qed
qed

lemma unat_succ_byte: "unat (b :: byte) < 20 \<Longrightarrow> unat (b + 1) = unat b + 1"
proof -
  assume "unat b < 20"
  then have "unat b + unat (1 :: byte) < 2 ^ LENGTH(8)" by simp
  then have "unat (b + 1) = unat b + unat (1 :: byte)" by (simp only: unat_add_lem)
  then show ?thesis by simp
qed

lemma sm130_transmitData_eq:
  "unat (data s ! 0) < 20 \<Longrightarrow>
   sm130_transmitData s w =
     Inr (s\<lparr>t := snd (gate (t s) (millis w)), cmd := data s ! 1\<rparr>,
          w\<lparr>millis := fst (gate (t s) (millis w)),
            wire_tx := wire_tx w
              @ [take (unat (data s ! 0) + 1) (data s)
                 @ [checksum (take (unat (data s ! 0) + 1) (data s))]]\<rparr>)"
  by (simp add: sm130_transmitData_def Let_def split_beta unat_succ_byte)

lemma take15_update: "(strncpy m 15 @ ys)[15 := v] = strncpy m 15 @ ys[0 := v]"
  by (simp add: list_update_append length_strncpy)

lemma take3_update: "(strncpy m 3 @ ys)[3 := v] = strncpy m 3 @ ys[0 := v]"
  by (simp add: list_update_append length_strncpy)

lemma sm130_do_frame:
  assumes "sm130_wf s"
  shows "\<exists>s'. sm130_do c s w =
           Inr (s', w\<lparr>millis := fst (gate (t s) (millis w)),
                      wire_tx := wire_tx w
                        @ [(of_nat (1 + length (sm130_params c)) # sm130_code c # sm130_params c)
                           @ [checksum (of_nat (1 + length (sm130_params c)) # sm130_code c
                                        # sm130_params c)]]\<rparr>)
         \<and> cmd s' = sm130_code c"
proof -
  from assms have "length (data s) = 20" by (simp add: sm130_wf_def)
  then obtain a0 a1 a2 a3 a4 a5 a6 a7 a8 a9 a10 a11 a12 a13 a14 a15 a16 a17 a18 a19
    where d: "data s = [a0, a1, a2, a3, a4, a5, a6, a7, a8, a9, a10, a11, a12, a13, a14, a15, a16, a17, a18, a19]"
    by (rule length20_explicit)
  show ?thesis
  proof (cases c)
    case (SM130_setAntennaPower level)
    then show ?thesis
      by (simp add: d sm130_setAntennaPower_def sm130_transmitData_eq)
  next
    case (SM130_authenticate block)
    then show ?thesis
      by (simp add: d sm130_authenticate_def sm130_transmitData_eq)
  next
    case (SM130_authenticate_key block keyType key)
    then show ?thesis
      by (simp add: d sm130_authenticate_key_def store_at_def sm130_transmitData_eq length_fetch)
  next
    case (SM130_readBlock block)
    then show ?thesis
      by (simp add: d sm130_readBlock_def sm130_transmitData_eq)
  next
    case (SM130_writeBlock block message)
    then show ?thesis
      by (simp add: d sm130_writeBlock_def store_at_def sm130_transmitData_eq length_strncpy
          take15_update)
  next
    case (SM130_writeFourByteBlock block message)
    then show ?thesis
      by (simp add: d sm130_writeFourByteBlock_def store_at_def sm130_transmitData_eq
          length_strncpy take3_update)
  next
    case SM130_seekTag
    then show ?thesis
      by (simp add: d sm130_seekTag_def sm130_sendCommand_def sm130_transmitData_eq)
  next
    case SM130_selectTag
    then show ?thesis
      by (simp add: d sm130_selectTag_def sm130_sendCommand_def sm130_transmitData_eq)
  next
    case SM130_haltTag
    then show ?thesis
      by (simp add: d sm130_haltTag_def sm130_sendCommand_def sm130_transmitData_eq)
  next
    case SM130_sleep
    then show ?thesis
      by (simp add: d sm130_sleep_def sm130_sendCommand_def sm130_transmitData_eq)
  next
    case (SM130_sendCommand x)
    then show ?thesis
      by (simp add: d sm130_sendCommand_def sm130_transmitData_eq)
  qed
qed

lemma sl018_params_le: "length (sl018_params c) \<le> 17"
  by (cases c) (simp_all add: length_fetch)

lemma sm130_params_le: "length (sm130_params c) \<le> 17"
  by (cases c) (simp_all add: length_strncpy length_fetch)

lemma unat_frame_len: "n \<le> 17 \<Longrightarrow> unat (1 + of_nat n :: byte) = Suc n"
proof -
  assume "n \<le> 17"
  then have "Suc n mod 2 ^ LENGTH(8) = Suc n"
    by simp
  moreover have "unat (of_nat (Suc n) :: byte) = Suc n mod 2 ^ LENGTH(8)"
    by (rule unat_of_nat)
  ultimately show ?thesis
    by simp
qed

text \<open>
  Claim C4. Every call that sends a command does put one frame on the bus, from every
  state of the reader and for every argument: the length byte, which is 1 plus the
  number of parameter bytes, the command code, and the parameter bytes; the SM130 adds
  the checksum byte. The length byte counts the bytes that follow it in the frame
  (without the checksum), the frame has at most 19 bytes for the SL018 and at most 20
  for the SM130, and the command code is recorded as the last command (seek, for the
  select frame that \<^verbatim>\<open>SL018::seekTag\<close> sends). The block write has 17 parameter bytes, so
  the bound holds beyond the 16 of the claim.
\<close>

theorem encoded_frame_length:
  assumes "sl018_wf sa" and "sm130_wf sb"
  shows "(\<exists>s' f. sl018_do ca sa wa =
             Inr (s', wa\<lparr>millis := fst (gate (t sa) (millis wa)),
                         wire_tx := wire_tx wa @ [f]\<rparr>)
           \<and> f = of_nat (1 + length (sl018_params ca)) # sl018_code ca # sl018_params ca
           \<and> unat (f ! 0) = 1 + length (sl018_params ca)
           \<and> length f = unat (f ! 0) + 1 \<and> length f \<le> SL018_SIZE_PACKET
           \<and> cmd s' = (if ca = SL018_seekTag then SL018_CMD_SEEK else sl018_code ca))
       \<and> (\<exists>s' f. sm130_do cb sb wb =
             Inr (s', wb\<lparr>millis := fst (gate (t sb) (millis wb)),
                         wire_tx := wire_tx wb @ [f @ [checksum f]]\<rparr>)
           \<and> f = of_nat (1 + length (sm130_params cb)) # sm130_code cb # sm130_params cb
           \<and> unat (f ! 0) = 1 + length (sm130_params cb)
           \<and> length (f @ [checksum f]) = unat (f ! 0) + 2
           \<and> length (f @ [checksum f]) \<le> SM130_SIZE_PACKET
           \<and> cmd s' = sm130_code cb)"
proof -
  let ?fa = "of_nat (1 + length (sl018_params ca)) # sl018_code ca # sl018_params ca"
  let ?fb = "of_nat (1 + length (sm130_params cb)) # sm130_code cb # sm130_params cb"
  have la: "unat (?fa ! 0) = 1 + length (sl018_params ca)"
    using sl018_params_le [of ca] by (simp add: unat_frame_len)
  have lb: "unat (?fb ! 0) = 1 + length (sm130_params cb)"
    using sm130_params_le [of cb] by (simp add: unat_frame_len)
  from sl018_do_frame [OF assms(1), of ca wa] obtain s1 where
    a: "sl018_do ca sa wa =
          Inr (s1, wa\<lparr>millis := fst (gate (t sa) (millis wa)), wire_tx := wire_tx wa @ [?fa]\<rparr>)"
    and ca: "cmd s1 = (if ca = SL018_seekTag then SL018_CMD_SEEK else sl018_code ca)"
    by blast
  from sm130_do_frame [OF assms(2), of cb wb] obtain s2 where
    b: "sm130_do cb sb wb =
          Inr (s2, wb\<lparr>millis := fst (gate (t sb) (millis wb)),
                     wire_tx := wire_tx wb @ [?fb @ [checksum ?fb]]\<rparr>)"
    and cb: "cmd s2 = sm130_code cb"
    by blast
  have "\<exists>s' f. sl018_do ca sa wa =
             Inr (s', wa\<lparr>millis := fst (gate (t sa) (millis wa)),
                         wire_tx := wire_tx wa @ [f]\<rparr>)
           \<and> f = ?fa \<and> unat (f ! 0) = 1 + length (sl018_params ca)
           \<and> length f = unat (f ! 0) + 1 \<and> length f \<le> SL018_SIZE_PACKET
           \<and> cmd s' = (if ca = SL018_seekTag then SL018_CMD_SEEK else sl018_code ca)"
    using a ca la sl018_params_le [of ca] by (intro exI [of _ s1] exI [of _ ?fa]) simp
  moreover have "\<exists>s' f. sm130_do cb sb wb =
             Inr (s', wb\<lparr>millis := fst (gate (t sb) (millis wb)),
                         wire_tx := wire_tx wb @ [f @ [checksum f]]\<rparr>)
           \<and> f = ?fb \<and> unat (f ! 0) = 1 + length (sm130_params cb)
           \<and> length (f @ [checksum f]) = unat (f ! 0) + 2
           \<and> length (f @ [checksum f]) \<le> SM130_SIZE_PACKET
           \<and> cmd s' = sm130_code cb"
    using b cb lb sm130_params_le [of cb] by (intro exI [of _ s2] exI [of _ ?fb]) simp
  ultimately show ?thesis
    by (rule conjI)
qed

theorem encoded_frame_length_witness:
  "sl018_wf (sl018_init \<lparr>millis = 0, wire_tx = [], gpio = [], dready = False\<rparr>)
   \<and> sm130_wf (sm130_init \<lparr>millis = 0, wire_tx = [], gpio = [], dready = False\<rparr>)
   \<and> (\<exists>s'. sl018_do (SL018_writeBlock 1 (\<lambda>i. if i = 0 then 0x61 else if i = 1 then 0x62 else if i = 2 then 0x63 else 0)) (sl018_init \<lparr>millis = 0, wire_tx = [], gpio = [], dready = False\<rparr>) \<lparr>millis = 0, wire_tx = [], gpio = [], dready = False\<rparr>
             = Inr (s', \<lparr>millis = 10,
                         wire_tx = [[18, SL018_CMD_WRITE16, 1, 0x61, 0x62, 0x63,
                                     0, 0, 0, 0, 0, 0, 0, 0, 0, 0, 0, 0, 0]],
                         gpio = [], dready = False\<rparr>)
          \<and> cmd s' = SL018_CMD_WRITE16)
   \<and> (\<exists>s'. sm130_do (SM130_writeBlock 1 [0x61, 0x62, 0x63]) (sm130_init \<lparr>millis = 0, wire_tx = [], gpio = [], dready = False\<rparr>) \<lparr>millis = 0, wire_tx = [], gpio = [], dready = False\<rparr>
             = Inr (s', \<lparr>millis = 10,
                         wire_tx = [[18, SM130_CMD_WRITE16, 1, 0x61, 0x62, 0x63,
                                     0, 0, 0, 0, 0, 0, 0, 0, 0, 0, 0, 0, 0, 0xC2]],
                         gpio = [], dready = False\<rparr>)
          \<and> cmd s' = SM130_CMD_WRITE16)"
proof -
  let ?w = "\<lparr>millis = 0, wire_tx = [], gpio = [], dready = False\<rparr>"
  let ?m = "(\<lambda>i. if i = 0 then 0x61 else if i = 1 then 0x62 else if i = 2 then 0x63 else 0)"
  have a: "sl018_wf (sl018_init ?w)"
    by (simp add: sl018_wf_def sl018_init_def)
  have b: "sm130_wf (sm130_init ?w)"
    by (simp add: sm130_wf_def sm130_init_def)
  have pa: "sl018_params (SL018_writeBlock 1 ?m)
      = [1, 0x61, 0x62, 0x63, 0, 0, 0, 0, 0, 0, 0, 0, 0, 0, 0, 0, 0]"
    by code_simp
  have pb: "sm130_params (SM130_writeBlock 1 [0x61, 0x62, 0x63])
      = [1, 0x61, 0x62, 0x63, 0, 0, 0, 0, 0, 0, 0, 0, 0, 0, 0, 0, 0]"
    by code_simp
  have ck: "checksum [18, SM130_CMD_WRITE16, 1, 0x61, 0x62, 0x63,
                      0, 0, 0, 0, 0, 0, 0, 0, 0, 0, 0, 0, 0] = 0xC2"
    by code_simp
  have g: "gate (t (sl018_init ?w)) (millis ?w) = (10, 30)"
    "gate (t (sm130_init ?w)) (millis ?w) = (10, 30)"
    by (simp_all add: gate_eq sl018_init_def sm130_init_def)
  show ?thesis
    using encoded_frame_length [OF a b, of "SL018_writeBlock 1 ?m" ?w
        "SM130_writeBlock 1 [0x61, 0x62, 0x63]" ?w] a b
    unfolding pa pb g
    by (simp add: ck)
qed

subsection \<open>The SM130 checksum\<close>

lemma foldl_add_sum_list: "foldl (\<lambda>sum b. sum + b) a bs = a + sum_list (bs :: byte list)"
  by (induction bs arbitrary: a) (simp_all add: add.assoc)

lemma checksum_sum_list: "checksum bs = sum_list bs"
  by (simp add: checksum_def foldl_add_sum_list)

lemma sum_list_update_word:
  "j < length bs \<Longrightarrow> sum_list (bs[j := v]) = sum_list bs - bs ! j + (v :: byte)"
proof (induction bs arbitrary: j)
  case Nil
  then show ?case by simp
next
  case (Cons b bs)
  then show ?case by (cases j) simp_all
qed

lemma unat_sum_list: "unat (sum_list (bs :: byte list)) = sum_list (map unat bs) mod 256"
proof (induction bs)
  case Nil
  then show ?case by simp
next
  case (Cons b bs)
  have "unat (b + sum_list bs) = (unat b + unat (sum_list bs)) mod 256"
    by (simp add: unat_word_ariths)
  also have "\<dots> = (unat b + sum_list (map unat bs) mod 256) mod 256"
    by (simp only: Cons.IH)
  also have "\<dots> = (unat b + sum_list (map unat bs)) mod 256"
    by (rule mod_add_right_eq)
  finally show ?case by simp
qed

lemma flip_bit_neq: "k < 8 \<Longrightarrow> (x :: byte) XOR 2 ^ k \<noteq> x"
proof
  assume k: "k < 8" and eq: "x XOR 2 ^ k = x"
  have "bit (x XOR 2 ^ k) k \<longleftrightarrow> \<not> bit x k"
    using k by (simp add: bit_xor_iff bit_exp_iff)
  with eq show False by simp
qed

lemma checksum_flip:
  assumes "j < length bs" and "k < 8"
  shows "checksum (bs[j := bs ! j XOR 2 ^ k]) \<noteq> checksum bs"
proof -
  have "checksum (bs[j := bs ! j XOR 2 ^ k]) = checksum bs - bs ! j + (bs ! j XOR 2 ^ k)"
    using assms(1) by (simp add: checksum_sum_list sum_list_update_word)
  moreover have "bs ! j XOR 2 ^ k \<noteq> bs ! j"
    using assms(2) by (rule flip_bit_neq)
  ultimately show ?thesis by simp
qed

text \<open>What \<^verbatim>\<open>SM130::receiveData\<close> does with a response of at least one byte.\<close>

lemma sm130_receiveData_eq:
  assumes "sm130_wf s" and "Wire_requestFrom len rx = buf" and "buf \<noteq> []" and "length buf \<le> 20"
  shows "sm130_receiveData s w rx len =
    (let d = buf @ drop (length buf) (data s);
         s1 = s\<lparr>t := snd (gate (t s) (millis w)), data := d\<rparr>;
         w1 = w\<lparr>millis := fst (gate (t s) (millis w))\<rparr>
     in if d ! 0 > 0 \<and> unat (d ! 0) \<le> 18 then
          Inr (if checksum (take (unat (d ! 0) + 1) d) = d ! (unat (d ! 0) + 1) then d ! 0 else - 1,
               s1, w1)
        else Inr (0, s1, w1))"
proof -
  have n: "unat (Wire_available buf) = length buf"
    using assms(4) by (simp add: Wire_available_def unat_of_nat)
  have pos: "Wire_available buf > 0"
    using n assms(3) by (simp add: word_greater_zero_iff unat_eq_0 [symmetric] del: unat_eq_0)
  have len: "length (data s) = 20" using assms(1) by (simp add: sm130_wf_def)
  have "sm130_rx_loop 0 (length buf) buf (data s) =
      Inr (take 0 (data s) @ Wire_reads (length buf - 0) buf @ drop (length buf) (data s))"
    using len assms(4) by (intro sm130_rx_loop_eq) simp_all
  then have loop: "sm130_rx_loop 0 (length buf) buf (data s) = Inr (buf @ drop (length buf) (data s))"
    by (simp add: Wire_reads_take)
  show ?thesis
    using loop n pos assms(2)
    by (simp add: sm130_receiveData_def Let_def split_beta)
qed

lemma sm130_receive_frame:
  assumes "sm130_wf r" and "length body = unat (body ! 0) + 1" and "0 < body ! 0"
    and "unat (body ! 0) \<le> 18" and "length body < unat len"
  shows "sm130_receiveData r wr (body @ [c]) len =
    Inr (if checksum body = c then body ! 0 else - 1,
         r\<lparr>t := snd (gate (t r) (millis wr)),
           data := body @ c # drop (length body + 1) (data r)\<rparr>,
         wr\<lparr>millis := fst (gate (t r) (millis wr))\<rparr>)"
proof -
  let ?f = "body @ [c]"
  let ?d = "?f @ drop (length ?f) (data r)"
  have lf: "length ?f \<le> 20" using assms(2,4) by simp
  have rq: "Wire_requestFrom len ?f = ?f"
    using assms(5) by (simp add: Wire_requestFrom_def)
  have ne: "body \<noteq> []" using assms(2) by auto
  then have d0: "?d ! 0 = body ! 0"
    by (cases body) simp_all
  have tk: "take (unat (body ! 0) + 1) ?d = body"
    using assms(2) by simp
  have ck: "?d ! (unat (body ! 0) + 1) = c"
    using assms(2) by (simp add: nth_append)
  have "sm130_receiveData r wr ?f len =
    (let d = ?d;
         s1 = r\<lparr>t := snd (gate (t r) (millis wr)), data := d\<rparr>;
         w1 = wr\<lparr>millis := fst (gate (t r) (millis wr))\<rparr>
     in if d ! 0 > 0 \<and> unat (d ! 0) \<le> 18 then
          Inr (if checksum (take (unat (d ! 0) + 1) d) = d ! (unat (d ! 0) + 1) then d ! 0 else - 1,
               s1, w1)
        else Inr (0, s1, w1))"
    using assms(1) rq _ lf by (rule sm130_receiveData_eq) simp
  then show ?thesis
    unfolding Let_def d0 tk ck using assms(3,4) by simp
qed

text \<open>
  Claim C5. For a packet buffer with a length byte from 1 to 18, the SM130 encoder sends
  the bytes from the length byte to the last payload byte and then their sum modulo 256.
  Fed back to the decoder, the frame is accepted: the decoder returns the length byte and
  holds the same bytes. With any one bit of any one payload byte flipped, the decoder
  returns \<open>-1\<close>, its checksum fault.
\<close>

theorem checksum_round_trip:
  assumes "sm130_wf s" and "sm130_wf r" and "0 < data s ! 0" and "unat (data s ! 0) \<le> 18"
  shows "\<exists>s' f. sm130_transmitData s w =
             Inr (s', w\<lparr>millis := fst (gate (t s) (millis w)), wire_tx := wire_tx w @ [f]\<rparr>)
           \<and> butlast f = take (unat (data s ! 0) + 1) (data s)
           \<and> unat (last f) = sum_list (map unat (butlast f)) mod 256
           \<and> (\<exists>r' wr'. sm130_receiveData r wr f 20 = Inr (data s ! 0, r', wr')
                  \<and> take (length f) (data r') = f)
           \<and> (\<forall>j k. 1 \<le> j \<and> j \<le> unat (data s ! 0) \<and> k < 8 \<longrightarrow>
                  (\<exists>r' wr'. sm130_receiveData r wr (f[j := f ! j XOR 2 ^ k]) 20
                             = Inr (- 1, r', wr')))"
proof -
  let ?L = "unat (data s ! 0)"
  let ?body = "take (?L + 1) (data s)"
  let ?f = "?body @ [checksum ?body]"
  have len: "length (data s) = 20" using assms(1) by (simp add: sm130_wf_def)
  have lb: "length ?body = ?L + 1" using len assms(4) by simp
  have b0: "?body ! 0 = data s ! 0" by simp
  have tx: "sm130_transmitData s w =
      Inr (s\<lparr>t := snd (gate (t s) (millis w)), cmd := data s ! 1\<rparr>,
           w\<lparr>millis := fst (gate (t s) (millis w)), wire_tx := wire_tx w @ [?f]\<rparr>)"
    using assms(4) by (simp add: sm130_transmitData_eq)
  have sum: "unat (last ?f) = sum_list (map unat (butlast ?f)) mod 256"
    by (simp add: checksum_sum_list unat_sum_list)
  have ok: "sm130_receiveData r wr ?f 20 =
      Inr (data s ! 0,
           r\<lparr>t := snd (gate (t r) (millis wr)),
             data := ?body @ checksum ?body # drop (length ?body + 1) (data r)\<rparr>,
           wr\<lparr>millis := fst (gate (t r) (millis wr))\<rparr>)"
    using sm130_receive_frame [OF assms(2), where body = ?body and wr = wr
        and c = "checksum ?body" and len = 20] lb b0 assms(3,4)
    by simp
  have flip: "\<exists>r' wr'. sm130_receiveData r wr (?f[j := ?f ! j XOR 2 ^ k]) 20 = Inr (- 1, r', wr')"
    if j: "1 \<le> j" "j \<le> ?L" and k: "k < 8" for j k
  proof -
    let ?b' = "?body[j := ?body ! j XOR 2 ^ k]"
    have jl: "j < length ?body" using j lb by simp
    have f': "?f[j := ?f ! j XOR 2 ^ k] = ?b' @ [checksum ?body]"
      using jl by (simp add: list_update_append nth_append del: length_take)
    have b0': "?b' ! 0 = data s ! 0"
      using j b0 by (simp del: nth_take)
    have lb': "length ?b' = unat (?b' ! 0) + 1"
      using lb b0' by (simp del: length_take nth_take)
    have ne: "checksum ?b' \<noteq> checksum ?body"
      using jl k by (rule checksum_flip)
    have "sm130_receiveData r wr (?b' @ [checksum ?body]) 20 =
      Inr (if checksum ?b' = checksum ?body then ?b' ! 0 else - 1,
           r\<lparr>t := snd (gate (t r) (millis wr)),
             data := ?b' @ checksum ?body # drop (length ?b' + 1) (data r)\<rparr>,
           wr\<lparr>millis := fst (gate (t r) (millis wr))\<rparr>)"
      using assms(2) lb' by (rule sm130_receive_frame) (use b0' lb' assms(3,4) in simp_all)
    with ne f' show ?thesis
      by (simp del: length_list_update)
  qed
  show ?thesis
    using tx sum ok flip lb
    by (intro exI [of _ "s\<lparr>t := snd (gate (t s) (millis w)), cmd := data s ! 1\<rparr>"] exI [of _ ?f])
       (simp del: length_take)
qed

theorem checksum_round_trip_witness:
  "sm130_wf ((sm130_init \<lparr>millis = 0, wire_tx = [], gpio = [], dready = False\<rparr>)\<lparr>data := [2, SM130_CMD_READ16, 4] @ replicate 17 0\<rparr>) \<and> sm130_wf (sm130_init \<lparr>millis = 0, wire_tx = [], gpio = [], dready = False\<rparr>) \<and> 0 < data ((sm130_init \<lparr>millis = 0, wire_tx = [], gpio = [], dready = False\<rparr>)\<lparr>data := [2, SM130_CMD_READ16, 4] @ replicate 17 0\<rparr>) ! 0 \<and> unat (data ((sm130_init \<lparr>millis = 0, wire_tx = [], gpio = [], dready = False\<rparr>)\<lparr>data := [2, SM130_CMD_READ16, 4] @ replicate 17 0\<rparr>) ! 0) \<le> 18
   \<and> (\<exists>s' f. sm130_transmitData ((sm130_init \<lparr>millis = 0, wire_tx = [], gpio = [], dready = False\<rparr>)\<lparr>data := [2, SM130_CMD_READ16, 4] @ replicate 17 0\<rparr>) \<lparr>millis = 0, wire_tx = [], gpio = [], dready = False\<rparr> =
             Inr (s', \<lparr>millis = 0, wire_tx = [], gpio = [], dready = False\<rparr>\<lparr>millis := fst (gate (t ((sm130_init \<lparr>millis = 0, wire_tx = [], gpio = [], dready = False\<rparr>)\<lparr>data := [2, SM130_CMD_READ16, 4] @ replicate 17 0\<rparr>)) (millis \<lparr>millis = 0, wire_tx = [], gpio = [], dready = False\<rparr>)), wire_tx := wire_tx \<lparr>millis = 0, wire_tx = [], gpio = [], dready = False\<rparr> @ [f]\<rparr>)
           \<and> butlast f = take (unat (data ((sm130_init \<lparr>millis = 0, wire_tx = [], gpio = [], dready = False\<rparr>)\<lparr>data := [2, SM130_CMD_READ16, 4] @ replicate 17 0\<rparr>) ! 0) + 1) (data ((sm130_init \<lparr>millis = 0, wire_tx = [], gpio = [], dready = False\<rparr>)\<lparr>data := [2, SM130_CMD_READ16, 4] @ replicate 17 0\<rparr>))
           \<and> unat (last f) = sum_list (map unat (butlast f)) mod 256
           \<and> (\<exists>r' wr'. sm130_receiveData (sm130_init \<lparr>millis = 0, wire_tx = [], gpio = [], dready = False\<rparr>) \<lparr>millis = 0, wire_tx = [], gpio = [], dready = False\<rparr> f 20 = Inr (data ((sm130_init \<lparr>millis = 0, wire_tx = [], gpio = [], dready = False\<rparr>)\<lparr>data := [2, SM130_CMD_READ16, 4] @ replicate 17 0\<rparr>) ! 0, r', wr')
                  \<and> take (length f) (data r') = f)
           \<and> (\<forall>j k. 1 \<le> j \<and> j \<le> unat (data ((sm130_init \<lparr>millis = 0, wire_tx = [], gpio = [], dready = False\<rparr>)\<lparr>data := [2, SM130_CMD_READ16, 4] @ replicate 17 0\<rparr>) ! 0) \<and> k < 8 \<longrightarrow>
                  (\<exists>r' wr'. sm130_receiveData (sm130_init \<lparr>millis = 0, wire_tx = [], gpio = [], dready = False\<rparr>) \<lparr>millis = 0, wire_tx = [], gpio = [], dready = False\<rparr> (f[j := f ! j XOR 2 ^ k]) 20
                             = Inr (- 1, r', wr'))))"
proof -
  have h1: "sm130_wf ((sm130_init \<lparr>millis = 0, wire_tx = [], gpio = [], dready = False\<rparr>)\<lparr>data := [2, SM130_CMD_READ16, 4] @ replicate 17 0\<rparr>)"
    by (simp add: sm130_wf_def sm130_init_def)
  have h2: "sm130_wf (sm130_init \<lparr>millis = 0, wire_tx = [], gpio = [], dready = False\<rparr>)"
    by (simp add: sm130_wf_def sm130_init_def)
  have h3: "0 < data ((sm130_init \<lparr>millis = 0, wire_tx = [], gpio = [], dready = False\<rparr>)\<lparr>data := [2, SM130_CMD_READ16, 4] @ replicate 17 0\<rparr>) ! 0"
    by simp
  have h4: "unat (data ((sm130_init \<lparr>millis = 0, wire_tx = [], gpio = [], dready = False\<rparr>)\<lparr>data := [2, SM130_CMD_READ16, 4] @ replicate 17 0\<rparr>) ! 0) \<le> 18"
    by simp
  from checksum_round_trip [OF h1 h2 h3 h4, of "\<lparr>millis = 0, wire_tx = [], gpio = [], dready = False\<rparr>" "\<lparr>millis = 0, wire_tx = [], gpio = [], dready = False\<rparr>"] h1 h2 h3 h4
  show ?thesis
    by (intro conjI)
qed

subsection \<open>Seek continuation\<close>

lemma Wire_reads_Cons: "Wire_reads (Suc n) (b # bs) = b # Wire_reads n bs"
  by (simp add: Wire_read_def)

lemma word_pos_unat: "0 < (b :: byte) \<longleftrightarrow> 0 < unat b"
  by (simp add: word_less_nat_alt)

lemma sl018_seek_retry:
  assumes wf: "sl018_wf s" and seek: "cmd s = SL018_CMD_SEEK" and rx: "rx = l # c # st # rest"
    and l2: "2 \<le> unat l" and l19: "unat l < 19" and st: "st \<noteq> 0"
  shows "\<exists>s' w'. sl018_available s w rx = Inr (False, s', w')
           \<and> wire_tx w' = wire_tx w @ [[1, SL018_CMD_SELECT]]
           \<and> cmd s' = SL018_CMD_SEEK \<and> errorCode s' = st"
proof -
  have rq: "Wire_requestFrom 11 rx = l # c # st # take 8 rest"
    by (simp add: Wire_requestFrom_def rx)
  from l2 obtain m where m: "unat l = Suc (Suc m)"
    by (metis Suc_le_D numeral_2_eq_2 Suc_le_mono)
  let ?d = "l # c # st # Wire_reads m (take 8 rest) @ drop (unat l + 1) (data s)"
  have rd: "sl018_receiveData s w rx 11 =
      Inr (l, s\<lparr>t := snd (gate (t s) (millis w)), data := ?d\<rparr>,
           w\<lparr>millis := fst (gate (t s) (millis w))\<rparr>)"
    using sl018_receiveData_ok [OF wf rq l19, of w] by (simp add: m Wire_read_def)
  have pos: "0 < l" using l2 by (simp add: word_pos_unat)
  show ?thesis
    using pos st
    by (simp add: sl018_available_def sl018_expected_len_def seek rd clear_tag_def
        sl018_getCommand_def sl018_seekTag_def sl018_selectTag_def sl018_sendCommand_def
        sl018_transmitData_eq)
qed

lemma sm130_seek_status:
  assumes wf: "sm130_wf s" and seek: "cmd s = SM130_CMD_SEEK_TAG"
    and ready: "pinDREADY s = 0xFF \<or> dready w"
    and rx: "rx = [2, SM130_CMD_SEEK_TAG, st, checksum [2, SM130_CMD_SEEK_TAG, st]]"
  shows "\<exists>s' w'. sm130_available s w rx = Inr (True, s', w')
           \<and> wire_tx w' = wire_tx w \<and> cmd s' = SM130_CMD_SEEK_TAG \<and> errorCode s' = st"
proof -
  let ?body = "[2, SM130_CMD_SEEK_TAG, st]"
  have rd: "sm130_receiveData s w (?body @ [checksum ?body]) 11 =
      Inr (if checksum ?body = checksum ?body then ?body ! 0 else - 1,
           s\<lparr>t := snd (gate (t s) (millis w)),
             data := ?body @ checksum ?body # drop (length ?body + 1) (data s)\<rparr>,
           w\<lparr>millis := fst (gate (t s) (millis w))\<rparr>)"
    using wf by (rule sm130_receive_frame) simp_all
  show ?thesis
    using ready rd
    by (auto simp: sm130_available_def sm130_expected_len_def seek rx sm130_process_def
        clear_tag_def getPacketLength_def sm130_getCommand_def Let_def)
qed

text \<open>
  Claim C3, as stated, fails for the SM130. In seek mode, with the response \<open>02 82 4C\<close>
  (status \<open>L\<close>, seek in progress) or \<open>02 82 4E\<close> (status \<open>N\<close>, no tag) and the
  right checksum, \<^verbatim>\<open>SM130::available\<close> returns true, and the only frame on the bus is
  the seek command sent before: no command is sent again.
\<close>

theorem sm130_seek_no_reseek:
  "(case bindF (sm130_seekTag (sm130_init \<lparr>millis = 0, wire_tx = [], gpio = [], dready = True\<rparr>)
                  \<lparr>millis = 0, wire_tx = [], gpio = [], dready = True\<rparr>)
           (\<lambda>(s, w). sm130_available s w [2, 0x82, 0x4C, 0xD0]) of
      Inr (b, s', w') \<Rightarrow> b \<and> errorCode s' = 0x4C \<and> wire_tx w' = [[1, 0x82, 0x83]]
    | Inl e \<Rightarrow> False)
   \<and> (case bindF (sm130_seekTag (sm130_init \<lparr>millis = 0, wire_tx = [], gpio = [], dready = True\<rparr>)
                  \<lparr>millis = 0, wire_tx = [], gpio = [], dready = True\<rparr>)
           (\<lambda>(s, w). sm130_available s w [2, 0x82, 0x4E, 0xD2]) of
      Inr (b, s', w') \<Rightarrow> b \<and> errorCode s' = 0x4E \<and> wire_tx w' = [[1, 0x82, 0x83]]
    | Inl e \<Rightarrow> False)"
  by code_simp

text \<open>
  Claim C3, amended. SL018: with seek as the last command, a response of 2 to 18 bytes
  after the length byte whose status byte is not 0 makes \<^verbatim>\<open>available\<close> send exactly
  one frame, the select command that \<^verbatim>\<open>seekTag\<close> sends, keep seek as the last command
  and return false; the status is left in the error code. SM130: with seek as the last
  command and the ready pin unused or high, a status response makes \<^verbatim>\<open>available\<close> send
  nothing and return true with the status as error code.
\<close>

theorem seek_continuation:
  "(sl018_wf sa \<and> cmd sa = SL018_CMD_SEEK \<and> 2 \<le> unat l \<and> unat l < 19 \<and> st \<noteq> 0 \<longrightarrow>
      (\<exists>s' w'. sl018_available sa wa (l # c # st # rest) = Inr (False, s', w')
           \<and> wire_tx w' = wire_tx wa @ [[1, SL018_CMD_SELECT]]
           \<and> cmd s' = SL018_CMD_SEEK \<and> errorCode s' = st))
   \<and> (sm130_wf sb \<and> cmd sb = SM130_CMD_SEEK_TAG \<and> (pinDREADY sb = 0xFF \<or> dready wb) \<longrightarrow>
      (\<exists>s' w'. sm130_available sb wb
                   [2, SM130_CMD_SEEK_TAG, st, checksum [2, SM130_CMD_SEEK_TAG, st]]
                 = Inr (True, s', w')
           \<and> wire_tx w' = wire_tx wb \<and> cmd s' = SM130_CMD_SEEK_TAG \<and> errorCode s' = st))"
  using sl018_seek_retry [of sa "l # c # st # rest" l c st rest wa]
    sm130_seek_status [of sb wb _ st]
  by blast

theorem seek_continuation_witness:
  "sl018_wf ((sl018_init \<lparr>millis = 0, wire_tx = [], gpio = [], dready = True\<rparr>)\<lparr>cmd := SL018_CMD_SEEK\<rparr>)
   \<and> cmd ((sl018_init \<lparr>millis = 0, wire_tx = [], gpio = [], dready = True\<rparr>)\<lparr>cmd := SL018_CMD_SEEK\<rparr>)
       = SL018_CMD_SEEK
   \<and> 2 \<le> unat (2 :: byte) \<and> unat (2 :: byte) < 19 \<and> (1 :: byte) \<noteq> 0
   \<and> (\<exists>s' w'. sl018_available
                   ((sl018_init \<lparr>millis = 0, wire_tx = [], gpio = [], dready = True\<rparr>)\<lparr>cmd := SL018_CMD_SEEK\<rparr>)
                   \<lparr>millis = 0, wire_tx = [], gpio = [], dready = True\<rparr> [2, 1, 1]
                 = Inr (False, s', w')
           \<and> wire_tx w' = [[1, SL018_CMD_SELECT]] \<and> cmd s' = SL018_CMD_SEEK \<and> errorCode s' = 1)
   \<and> sm130_wf ((sm130_init \<lparr>millis = 0, wire_tx = [], gpio = [], dready = True\<rparr>)\<lparr>cmd := SM130_CMD_SEEK_TAG\<rparr>)
   \<and> (\<exists>s' w'. sm130_available
                   ((sm130_init \<lparr>millis = 0, wire_tx = [], gpio = [], dready = True\<rparr>)\<lparr>cmd := SM130_CMD_SEEK_TAG\<rparr>)
                   \<lparr>millis = 0, wire_tx = [], gpio = [], dready = True\<rparr> [2, 0x82, 1, 0x85]
                 = Inr (True, s', w')
           \<and> wire_tx w' = [] \<and> errorCode s' = 1)"
proof -
  let ?w = "\<lparr>millis = 0, wire_tx = [], gpio = [], dready = True\<rparr>"
  have a: "sl018_wf ((sl018_init ?w)\<lparr>cmd := SL018_CMD_SEEK\<rparr>)"
    by (simp add: sl018_wf_def sl018_init_def)
  have b: "sm130_wf ((sm130_init ?w)\<lparr>cmd := SM130_CMD_SEEK_TAG\<rparr>)"
    by (simp add: sm130_wf_def sm130_init_def)
  have c: "checksum [2, SM130_CMD_SEEK_TAG, 1] = 0x85"
    by (simp add: checksum_def)
  show ?thesis
    using seek_continuation [of "(sl018_init ?w)\<lparr>cmd := SL018_CMD_SEEK\<rparr>" 2 1 ?w 1 "[]"
        "(sm130_init ?w)\<lparr>cmd := SM130_CMD_SEEK_TAG\<rparr>" ?w] a b c
    by simp blast
qed

subsection \<open>Tag records\<close>

lemma copy_tag_eq:
  "unat (tagLength s) \<le> 7 \<Longrightarrow>
   copy_tag s =
     Inr (s\<lparr>tagNumber := store (take (unat (tagLength s)) (drop 3 (data s))) (tagNumber s),
            tagString := store (arrayToHex (store (take (unat (tagLength s)) (drop 3 (data s)))
                                           (tagNumber s)) (tagLength s))
                           (tagString s)\<rparr>)"
  by (simp add: copy_tag_def Let_def)

lemma hex_digits_prefix: "hex_digits (ids @ rest) (length ids) = hex_digits ids (length ids)"
  using hex_digits_take [of "length ids" "ids @ rest"] by simp

lemma tag_string_stored:
  "unat k = length ids \<Longrightarrow>
   c_str (store (arrayToHex (store ids old) k) buf) = hex_digits ids (length ids)"
  by (simp add: store_def c_str_arrayToHex hex_digits_prefix)

lemma unat_minus_small:
  fixes l :: byte
  assumes "unat l = n + k" and "k < 256"
  shows "unat (l - of_nat k) = n"
proof -
  have k: "unat (of_nat k :: byte) = k"
    using assms(2) by (simp add: unat_of_nat)
  then have "of_nat k \<le> l"
    using assms(1) by (simp add: word_le_nat_alt)
  then have "unat (l - of_nat k) = unat l - unat (of_nat k :: byte)"
    by (rule unat_sub)
  with k assms(1) show ?thesis by simp
qed

lemma sl018_tag_record:
  assumes wf: "sl018_wf s" and cm: "cmd s = SL018_CMD_SEEK \<or> cmd s = SL018_CMD_SELECT"
    and n4: "4 \<le> length ids" and n7: "length ids \<le> 7" and ul: "unat l = length ids + 3"
  shows "\<exists>s' w'. sl018_available s w (l # c # 0 # ids @ [ty]) = Inr (True, s', w')
           \<and> wire_tx w' = wire_tx w \<and> errorCode s' = 0
           \<and> tagLength s' = l - 3 \<and> unat (tagLength s') = length ids \<and> tagType s' = ty
           \<and> take (length ids) (tagNumber s') = ids
           \<and> getTagString s' = hex_digits ids (length ids)"
proof -
  let ?n = "length ids"
  let ?rx = "l # c # 0 # ids @ [ty]"
  let ?d = "l # c # 0 # ids @ ty # drop (?n + 4) (data s)"
  let ?s1 = "s\<lparr>t := snd (gate (t s) (millis w)), data := ?d\<rparr>"
  have rq: "Wire_requestFrom 11 ?rx = l # (c # 0 # ids @ [ty])"
    using n7 by (simp add: Wire_requestFrom_def)
  have rs: "Wire_reads (?n + 3) (c # 0 # ids @ [ty]) = c # 0 # ids @ [ty]"
    by (subst Wire_reads_take) simp_all
  have l19: "unat l < 19" using ul n7 by simp
  have rd: "sl018_receiveData s w ?rx 11 = Inr (l, ?s1, w\<lparr>millis := fst (gate (t s) (millis w))\<rparr>)"
    using sl018_receiveData_ok [OF wf rq l19, of w] rs by (simp add: ul add.commute)
  have pos: "0 < l" by (simp add: word_pos_unat ul)
  have l7: "7 \<le> l" using n4 by (simp add: word_le_nat_alt ul)
  have un: "unat (l - 3) = ?n"
    using unat_minus_small [of l ?n 3] ul by simp
  have ty: "?d ! unat l = ty"
    by (simp add: nth_append ul)
  let ?s2 = "(clear_tag ?s1)\<lparr>errorCode := 0, tagLength := l - 3, tagType := ty\<rparr>"
  let ?s3 = "?s2\<lparr>tagNumber := store ids (tagNumber s),
                  tagString := store (arrayToHex (store ids (tagNumber s)) (l - 3))
                                 ((tagString s)[0 := CHR 0x00])\<rparr>"
  have ct: "copy_tag ?s2 = Inr ?s3"
    using n7 by (subst copy_tag_eq) (simp_all add: un clear_tag_def)
  have "sl018_available s w ?rx = Inr (True, ?s3, w\<lparr>millis := fst (gate (t s) (millis w))\<rparr>)"
    using cm pos l7 ct ty
    by (auto simp: sl018_available_def sl018_expected_len_def rd sl018_getCommand_def
        getPacketLength_def clear_tag_def)
  then show ?thesis
    using un by (simp add: getTagString_def tag_string_stored clear_tag_def) (simp add: store_def)
qed

lemma sm130_tag_record:
  assumes wf: "sm130_wf s"
    and cm: "cmd s = SM130_CMD_SELECT_TAG
             \<or> cmd s = SM130_CMD_SEEK_TAG \<and> (pinDREADY s = 0xFF \<or> dready w)"
    and c: "c = SM130_CMD_SEEK_TAG \<or> c = SM130_CMD_SELECT_TAG"
    and n4: "4 \<le> length ids" and n7: "length ids \<le> 7" and ul: "unat l = length ids + 2"
  shows "\<exists>s' w'. sm130_available s w ((l # c # ty # ids) @ [checksum (l # c # ty # ids)])
                   = Inr (True, s', w')
           \<and> wire_tx w' = wire_tx w \<and> errorCode s' = 0
           \<and> tagLength s' = l - 2 \<and> unat (tagLength s') = length ids \<and> tagType s' = ty
           \<and> take (length ids) (tagNumber s') = ids
           \<and> getTagString s' = hex_digits ids (length ids)"
proof -
  let ?n = "length ids"
  let ?body = "l # c # ty # ids"
  let ?d = "?body @ checksum ?body # drop (length ?body + 1) (data s)"
  let ?s1 = "s\<lparr>t := snd (gate (t s) (millis w)), data := ?d\<rparr>"
  have pos: "0 < l" by (simp add: word_pos_unat ul)
  have l6: "6 \<le> l" using n4 by (simp add: word_le_nat_alt ul)
  have l3: "\<not> l < 3" using n4 by (auto simp: word_less_nat_alt ul)
  have rd: "sm130_receiveData s w (?body @ [checksum ?body]) 11 =
      Inr (if checksum ?body = checksum ?body then ?body ! 0 else - 1, ?s1,
           w\<lparr>millis := fst (gate (t s) (millis w))\<rparr>)"
    using wf by (rule sm130_receive_frame) (use pos n4 n7 ul in auto)
  have un: "unat (l - 2) = ?n"
    using unat_minus_small [of l ?n 2] ul by simp
  let ?s2 = "(clear_tag ?s1)\<lparr>errorCode := 0, tagLength := l - 2, tagType := ty\<rparr>"
  let ?s3 = "?s2\<lparr>tagNumber := store ids (tagNumber s),
                  tagString := store (arrayToHex (store ids (tagNumber s)) (l - 2))
                                 ((tagString s)[0 := CHR 0x00])\<rparr>"
  have ct: "copy_tag ?s2 = Inr ?s3"
    using n7 by (subst copy_tag_eq) (simp_all add: un clear_tag_def)
  have pr: "sm130_process ?s1 = Inr (True, ?s3)"
    using c l6 l3 ct
    by (auto simp: sm130_process_def sm130_getCommand_def getPacketLength_def clear_tag_def Let_def)
  have "sm130_available s w (?body @ [checksum ?body])
      = Inr (True, ?s3, w\<lparr>millis := fst (gate (t s) (millis w))\<rparr>)"
    using cm pos pr rd
    by (auto simp: sm130_available_def sm130_expected_len_def)
  then show ?thesis
    using un by (simp add: getTagString_def tag_string_stored clear_tag_def) (simp add: store_def)
qed

text \<open>
  Claim C6, as stated, fails on its example. Neither reader has the tag type between
  the status and the id. Taken as the bytes \<open>08 00 01 AA BB CC DD\<close>, the record gives no
  tag in either reader: the SL018 reads its status byte as 1, the SM130 its command byte
  as 0. Taken as a frame with the command byte in front, \<open>08 cmd 00 01 AA BB CC DD\<close>,
  it gives an id of five bytes, \<open>01AABBCCDD\<close>, in the SL018, and an id of six bytes
  with tag type 0 in the SM130.
\<close>

theorem tag_record_counterexample:
  "(case bindF (sl018_selectTag (sl018_init \<lparr>millis = 0, wire_tx = [], gpio = [], dready = True\<rparr>) \<lparr>millis = 0, wire_tx = [], gpio = [], dready = True\<rparr>)
           (\<lambda>(s, w). sl018_available s w [8, 0, 1, 0xAA, 0xBB, 0xCC, 0xDD]) of
      Inr (b, s', w') \<Rightarrow> tagType s' = 0 \<and> getTagString s' = [] \<and> errorCode s' = 1
    | Inl e \<Rightarrow> False)
   \<and> (case bindF (sl018_selectTag (sl018_init \<lparr>millis = 0, wire_tx = [], gpio = [], dready = True\<rparr>) \<lparr>millis = 0, wire_tx = [], gpio = [], dready = True\<rparr>)
           (\<lambda>(s, w). sl018_available s w [8, 1, 0, 1, 0xAA, 0xBB, 0xCC, 0xDD, 1]) of
      Inr (b, s', w') \<Rightarrow> tagLength s' = 5 \<and> getTagString s' = ''01AABBCCDD''
    | Inl e \<Rightarrow> False)
   \<and> (case bindF (sm130_selectTag (sm130_init \<lparr>millis = 0, wire_tx = [], gpio = [], dready = True\<rparr>) \<lparr>millis = 0, wire_tx = [], gpio = [], dready = True\<rparr>)
           (\<lambda>(s, w). sm130_available s w [8, 0, 1, 0xAA, 0xBB, 0xCC, 0xDD, 0, 0, 0x17]) of
      Inr (b, s', w') \<Rightarrow> tagType s' = 0 \<and> getTagString s' = []
    | Inl e \<Rightarrow> False)
   \<and> (case bindF (sm130_selectTag (sm130_init \<lparr>millis = 0, wire_tx = [], gpio = [], dready = True\<rparr>) \<lparr>millis = 0, wire_tx = [], gpio = [], dready = True\<rparr>)
           (\<lambda>(s, w). sm130_available s w [8, 0x83, 0, 1, 0xAA, 0xBB, 0xCC, 0xDD, 0, 0x9A]) of
      Inr (b, s', w') \<Rightarrow> tagType s' = 0 \<and> tagLength s' = 6
                         \<and> getTagString s' = ''01AABBCCDD00''
    | Inl e \<Rightarrow> False)"
  by code_simp

text \<open>
  Claim C6, amended. The SL018 tag record is length byte, command byte, status 0, the id
  bytes, then the tag type; the SM130 tag record is length byte, command byte, tag type,
  the id bytes, then the checksum. For an id of 4 to 7 bytes, after seek or select, the
  number of id bytes is the length byte minus 3 (SL018) or minus 2 (SM130), the id bytes
  are copied, the tag type is recorded, the tag string is the hexadecimal form of the id,
  and \<^verbatim>\<open>available\<close> returns true with error code 0. The record \<open>07 01 00 AA BB CC DD 01\<close>
  of the SL018 and the record \<open>06 83 01 AA BB CC DD\<close> with its checksum of the SM130 give
  tag type 1 and tag string \<open>AABBCCDD\<close>.
\<close>

theorem tag_record_classified:
  "(sl018_wf sa \<and> (cmd sa = SL018_CMD_SEEK \<or> cmd sa = SL018_CMD_SELECT)
      \<and> 4 \<le> length ids \<and> length ids \<le> 7 \<and> unat la = length ids + 3 \<longrightarrow>
      (\<exists>s' w'. sl018_available sa wa (la # ca # 0 # ids @ [ty]) = Inr (True, s', w')
           \<and> wire_tx w' = wire_tx wa \<and> errorCode s' = 0
           \<and> tagLength s' = la - 3 \<and> unat (tagLength s') = length ids \<and> tagType s' = ty
           \<and> take (length ids) (tagNumber s') = ids
           \<and> getTagString s' = hex_digits ids (length ids)))
   \<and> (sm130_wf sb
      \<and> (cmd sb = SM130_CMD_SELECT_TAG
           \<or> cmd sb = SM130_CMD_SEEK_TAG \<and> (pinDREADY sb = 0xFF \<or> dready wb))
      \<and> (cb = SM130_CMD_SEEK_TAG \<or> cb = SM130_CMD_SELECT_TAG)
      \<and> 4 \<le> length ids \<and> length ids \<le> 7 \<and> unat lb = length ids + 2 \<longrightarrow>
      (\<exists>s' w'. sm130_available sb wb ((lb # cb # ty # ids) @ [checksum (lb # cb # ty # ids)])
                   = Inr (True, s', w')
           \<and> wire_tx w' = wire_tx wb \<and> errorCode s' = 0
           \<and> tagLength s' = lb - 2 \<and> unat (tagLength s') = length ids \<and> tagType s' = ty
           \<and> take (length ids) (tagNumber s') = ids
           \<and> getTagString s' = hex_digits ids (length ids)))"
  using sl018_tag_record [of sa ids la wa ca ty] sm130_tag_record [of sb wb cb ids lb ty]
  by blast

theorem tag_record_classified_witness:
  "sl018_wf ((sl018_init \<lparr>millis = 0, wire_tx = [], gpio = [], dready = True\<rparr>)\<lparr>cmd := SL018_CMD_SEEK\<rparr>)
   \<and> sm130_wf ((sm130_init \<lparr>millis = 0, wire_tx = [], gpio = [], dready = True\<rparr>)\<lparr>cmd := SM130_CMD_SEEK_TAG\<rparr>)
   \<and> (\<exists>s' w'. sl018_available ((sl018_init \<lparr>millis = 0, wire_tx = [], gpio = [], dready = True\<rparr>)\<lparr>cmd := SL018_CMD_SEEK\<rparr>) \<lparr>millis = 0, wire_tx = [], gpio = [], dready = True\<rparr>
                   [7, 1, 0, 0xAA, 0xBB, 0xCC, 0xDD, 1] = Inr (True, s', w')
           \<and> tagLength s' = 4 \<and> tagType s' = 1 \<and> getTagString s' = ''AABBCCDD'')
   \<and> (\<exists>s' w'. sm130_available ((sm130_init \<lparr>millis = 0, wire_tx = [], gpio = [], dready = True\<rparr>)\<lparr>cmd := SM130_CMD_SEEK_TAG\<rparr>) \<lparr>millis = 0, wire_tx = [], gpio = [], dready = True\<rparr>
                   [6, 0x82, 1, 0xAA, 0xBB, 0xCC, 0xDD, 0x97] = Inr (True, s', w')
           \<and> tagLength s' = 4 \<and> tagType s' = 1 \<and> getTagString s' = ''AABBCCDD'')"
proof -
  let ?w = "\<lparr>millis = 0, wire_tx = [], gpio = [], dready = True\<rparr>"
  have a: "sl018_wf ((sl018_init ?w)\<lparr>cmd := SL018_CMD_SEEK\<rparr>)"
    by (simp add: sl018_wf_def sl018_init_def)
  have b: "sm130_wf ((sm130_init ?w)\<lparr>cmd := SM130_CMD_SEEK_TAG\<rparr>)"
    by (simp add: sm130_wf_def sm130_init_def)
  have c: "checksum [6, SM130_CMD_SEEK_TAG, 1, 0xAA, 0xBB, 0xCC, 0xDD] = 0x97"
    by (simp add: checksum_def)
  have h: "hex_digits [0xAA, 0xBB, 0xCC, 0xDD] (length [0xAA, 0xBB, 0xCC, 0xDD :: byte]) = ''AABBCCDD''"
    by code_simp
  show ?thesis
    using tag_record_classified [of "(sl018_init ?w)\<lparr>cmd := SL018_CMD_SEEK\<rparr>"
        "[0xAA, 0xBB, 0xCC, 0xDD]" 7 ?w 1 1
        "(sm130_init ?w)\<lparr>cmd := SM130_CMD_SEEK_TAG\<rparr>" ?w SM130_CMD_SEEK_TAG 6] a b c h
    by simp blast
qed

subsection \<open>Halt and reset\<close>










end
